theory Spec2Isabelle
  imports Main
begin

section \<open>The fruit-catch game engine (src/js/gameEngine.js)\<close>

text \<open>
  The class \<open>GameEngine\<close> is embedded as a record of its fields together with the part of
  the browser it talks to: the live timers and animation frames of the host, and the log
  of callback invocations. Every method is a function from the state to the new state;
  a method that can throw returns \<open>js_error + world\<close>.

  Conventions of the embedding:
  \<^item> JavaScript numbers that the engine only counts with (score, level, counters,
    millisecond clock readings) are \<open>int\<close>; item ids are \<open>nat\<close>. (A number is a double
    and exact on integers up to 2 to the power 53, far beyond what a session counts.)
  \<^item> A JavaScript string is the list of its UTF-16 code units.
  \<^item> \<open>Date.now()\<close> and \<open>Math.random()\<close> are inputs: every clock reading and every
    random draw of a method is an argument of its model. The wall clock that \<open>Date.now()\<close>
    reads is not the host's timer clock, and the model does not tie the two together. \<open>selectItemType()\<close> and
    \<open>selectRandomZone()\<close> only turn a random number into one of five item keys and one
    of three zones, so the drawn key and zone are the arguments.
  \<^item> \<open>console.log\<close> is not modelled.
\<close>

subsection \<open>Strings\<close>

type_synonym jsstring = "nat list"

definition ascii :: "string \<Rightarrow> jsstring" where
  "ascii cs = map of_char cs"

subsection \<open>Items, zones and the two static tables\<close>

datatype zone = LEFT | CENTER | RIGHT

datatype itemKey = apple | banana | watermelon | cherry | bomb

record item =
  item_id :: nat
  item_type :: itemKey
  item_zone :: zone
  item_y :: int
  item_createdAt :: int

text \<open>
  \<open>this.itemTypes\<close>. The \<open>emoji\<close> member is a display glyph that only logging and the
  presentation layer read; it is left out.
\<close>

record itemData =
  itemScore :: int
  isFruit :: bool

fun itemTypes :: "itemKey \<Rightarrow> itemData" where
  "itemTypes apple = \<lparr>itemScore = 100, isFruit = True\<rparr>"
| "itemTypes banana = \<lparr>itemScore = 150, isFruit = True\<rparr>"
| "itemTypes watermelon = \<lparr>itemScore = 200, isFruit = True\<rparr>"
| "itemTypes cherry = \<lparr>itemScore = 250, isFruit = True\<rparr>"
| "itemTypes bomb = \<lparr>itemScore = 0, isFruit = False\<rparr>"

text \<open>
  \<open>this.levelConfig[n]\<close>: defined for 1 to 5, \<open>undefined\<close> (\<open>None\<close>) for every other
  number. The \<open>bombProbability\<close> member is never read by the engine and is left out.
\<close>

record levelCfg =
  fallDuration :: int

definition levelConfig :: "int \<Rightarrow> levelCfg option" where
  "levelConfig n =
     (if n = 1 then Some \<lparr>fallDuration = 4000\<rparr>
      else if n = 2 then Some \<lparr>fallDuration = 3500\<rparr>
      else if n = 3 then Some \<lparr>fallDuration = 3000\<rparr>
      else if n = 4 then Some \<lparr>fallDuration = 2500\<rparr>
      else if n = 5 then Some \<lparr>fallDuration = 2000\<rparr>
      else None)"

subsection \<open>Values of \<open>basketPosition\<close> and the pose table\<close>

text \<open>
  \<open>poseToZone\<close> is an object literal, so \<open>poseToZone[pose]\<close> is an ordinary property
  read: it finds the three own keys and, failing that, walks to \<open>Object.prototype\<close>.
  A label that names a member of \<open>Object.prototype\<close> therefore reads that member (a
  function, or for \<open>__proto__\<close> the prototype object itself), which is truthy and is
  not a zone string. \<open>Inherited k\<close> stands for the member named \<open>k\<close>; two of them are
  the same object exactly when the names agree.
\<close>

datatype position = Zone zone | Inherited jsstring

definition objectPrototypeKeys :: "jsstring list" where
  "objectPrototypeKeys = map ascii
     [''constructor'', ''hasOwnProperty'', ''isPrototypeOf'', ''propertyIsEnumerable'',
      ''toLocaleString'', ''toString'', ''valueOf'', ''__proto__'',
      ''__defineGetter__'', ''__defineSetter__'', ''__lookupGetter__'', ''__lookupSetter__'']"

text \<open>The three own keys are the Korean words for left, centre and right.\<close>

definition poseLeft :: jsstring where "poseLeft = [0xC88C]"
definition poseCenter :: jsstring where "poseCenter = [0xC911, 0xC559]"
definition poseRight :: jsstring where "poseRight = [0xC6B0]"

definition poseToZone :: "jsstring \<Rightarrow> position option" where
  "poseToZone pose =
     (if pose = poseLeft then Some (Zone LEFT)
      else if pose = poseCenter then Some (Zone CENTER)
      else if pose = poseRight then Some (Zone RIGHT)
      else if pose \<in> set objectPrototypeKeys then Some (Inherited pose)
      else None)"

subsection \<open>Notifications\<close>

text \<open>
  The two reasons passed to \<open>endGame\<close> are Korean sentences: "you caught a bomb!" and
  "you missed three fruits!".
\<close>

definition reasonBomb :: jsstring where
  "reasonBomb = [0xD3ED, 0xD0C4, 0xC744, 0x20, 0xBC1B, 0xC558, 0xC2B5, 0xB2C8, 0xB2E4, 0x21]"

definition reasonMisses :: jsstring where
  "reasonMisses = [0xACFC, 0xC77C, 0xC744, 0x20, 0x33, 0xBC88, 0x20, 0xB193, 0xCCE4,
                   0xC2B5, 0xB2C8, 0xB2E4, 0x21]"

text \<open>
  One constructor per callback slot, carrying the arguments of the call:
  \<open>ScoreChange score level missCount maxMisses combo\<close>, \<open>ItemCreate item fallDuration\<close>,
  \<open>ItemRemove id\<close>, \<open>BasketMove position\<close>, \<open>GameEnd reason score level fruitsCaught\<close>.
\<close>

datatype notification =
    ScoreChange int int int int int
  | ItemCreate item int
  | ItemRemove nat
  | BasketMove position
  | GameEnd jsstring int int int

datatype js_error = TypeError

subsection \<open>The engine's fields and the host\<close>

text \<open>
  A callback slot is \<open>True\<close> when a function is registered and \<open>False\<close> when it is
  \<open>null\<close>. A timer field is \<open>None\<close> for \<open>null\<close> and \<open>Some h\<close> for a handle; the host
  hands out handles greater than zero, so a handle is always truthy.
\<close>

record GameEngine =
  score :: int
  level :: int
  missCount :: int
  maxMisses :: int
  combo :: int
  isGameActive :: bool
  fruitsCaught :: int
  gameStartTime :: int
  levelUpTimer :: "nat option"
  itemSpawnTimer :: "nat option"
  basketPosition :: position
  items :: "item list"
  itemIdCounter :: nat
  onScoreChange :: bool
  onItemCreate :: bool
  onItemRemove :: bool
  onBasketMove :: bool
  onGameEnd :: bool
  animationId :: "nat option"

text \<open>
  The host: the live \<open>setInterval\<close> handles (each runs the level-up callback), the pending
  \<open>setTimeout\<close> handles (each runs \<open>spawnItem\<close>), the pending \<open>requestAnimationFrame\<close>
  handles (each runs \<open>gameLoop\<close>), the last handle issued from the timer pool and from
  the frame pool, and the callback invocations so far, oldest first. For the intervals the
  host keeps time: its timer clock in milliseconds, and for each interval handle the
  period it was armed with and the clock value at which it fires next.
\<close>

record world = GameEngine +
  hostIntervals :: "nat list"
  hostTimeouts :: "nat list"
  hostFrames :: "nat list"
  hostTimerSeq :: nat
  hostFrameSeq :: nat
  emitted :: "notification list"
  hostClock :: int
  hostPeriod :: "nat \<Rightarrow> int"
  hostDue :: "nat \<Rightarrow> int"

definition emit :: "notification \<Rightarrow> world \<Rightarrow> world" where
  "emit n w = w\<lparr>emitted := emitted w @ [n]\<rparr>"

definition newTimer :: "world \<Rightarrow> nat" where
  "newTimer w = Suc (hostTimerSeq w)"

definition newFrame :: "world \<Rightarrow> nat" where
  "newFrame w = Suc (hostFrameSeq w)"

text \<open>
  \<open>setInterval(callback, delay)\<close>: the new interval fires first \<open>delay\<close> milliseconds from
  now and then every \<open>delay\<close> milliseconds. (The engine's only call passes 20000.)
\<close>

definition setInterval :: "int \<Rightarrow> world \<Rightarrow> world" where
  "setInterval delay w =
     w\<lparr>hostIntervals := hostIntervals w @ [newTimer w], hostTimerSeq := newTimer w,
       hostPeriod := (hostPeriod w)(newTimer w := delay),
       hostDue := (hostDue w)(newTimer w := hostClock w + delay)\<rparr>"

definition setTimeout :: "world \<Rightarrow> world" where
  "setTimeout w = w\<lparr>hostTimeouts := hostTimeouts w @ [newTimer w], hostTimerSeq := newTimer w\<rparr>"

definition requestAnimationFrame :: "world \<Rightarrow> world" where
  "requestAnimationFrame w = w\<lparr>hostFrames := hostFrames w @ [newFrame w], hostFrameSeq := newFrame w\<rparr>"

text \<open>
  \<open>clearInterval\<close> and \<open>clearTimeout\<close> work on one pool of handles and are
  interchangeable in a browser.
\<close>

definition clearTimer :: "nat \<Rightarrow> world \<Rightarrow> world" where
  "clearTimer h w = w\<lparr>hostIntervals := removeAll h (hostIntervals w),
                       hostTimeouts := removeAll h (hostTimeouts w)\<rparr>"

definition cancelAnimationFrame :: "nat \<Rightarrow> world \<Rightarrow> world" where
  "cancelAnimationFrame h w = w\<lparr>hostFrames := removeAll h (hostFrames w)\<rparr>"

subsection \<open>Constructor and callback setters\<close>

definition constructor :: world where
  "constructor =
     \<lparr>score = 0, level = 1, missCount = 0, maxMisses = 3, combo = 0, isGameActive = False,
      fruitsCaught = 0, gameStartTime = 0, levelUpTimer = None, itemSpawnTimer = None,
      basketPosition = Zone CENTER, items = [], itemIdCounter = 0,
      onScoreChange = False, onItemCreate = False, onItemRemove = False,
      onBasketMove = False, onGameEnd = False, animationId = None,
      hostIntervals = [], hostTimeouts = [], hostFrames = [],
      hostTimerSeq = 0, hostFrameSeq = 0, emitted = [],
      hostClock = 0, hostPeriod = (\<lambda>h. 0), hostDue = (\<lambda>h. 0)\<rparr>"

definition setScoreChangeCallback :: "bool \<Rightarrow> world \<Rightarrow> world" where
  "setScoreChangeCallback callback w = w\<lparr>onScoreChange := callback\<rparr>"

definition setItemCreateCallback :: "bool \<Rightarrow> world \<Rightarrow> world" where
  "setItemCreateCallback callback w = w\<lparr>onItemCreate := callback\<rparr>"

definition setItemRemoveCallback :: "bool \<Rightarrow> world \<Rightarrow> world" where
  "setItemRemoveCallback callback w = w\<lparr>onItemRemove := callback\<rparr>"

definition setBasketMoveCallback :: "bool \<Rightarrow> world \<Rightarrow> world" where
  "setBasketMoveCallback callback w = w\<lparr>onBasketMove := callback\<rparr>"

definition setGameEndCallback :: "bool \<Rightarrow> world \<Rightarrow> world" where
  "setGameEndCallback callback w = w\<lparr>onGameEnd := callback\<rparr>"

subsection \<open>Notifying, ending and stopping\<close>

definition notifyScoreChange :: "world \<Rightarrow> world" where
  "notifyScoreChange w =
     (if onScoreChange w
      then emit (ScoreChange (score w) (level w) (missCount w) (maxMisses w) (combo w)) w
      else w)"

text \<open>
  The three blocks that \<open>stop\<close> and \<open>endGame\<close> both run after clearing
  \<open>isGameActive\<close>: each clears a handle that is set and nulls its field.
  \<open>cancelTimers\<close> is the three in the source's order.
\<close>

definition clearLevelUpTimer :: "world \<Rightarrow> world" where
  "clearLevelUpTimer w =
     (case levelUpTimer w of None \<Rightarrow> w
      | Some h \<Rightarrow> (clearTimer h w)\<lparr>levelUpTimer := None\<rparr>)"

definition clearItemSpawnTimer :: "world \<Rightarrow> world" where
  "clearItemSpawnTimer w =
     (case itemSpawnTimer w of None \<Rightarrow> w
      | Some h \<Rightarrow> (clearTimer h w)\<lparr>itemSpawnTimer := None\<rparr>)"

definition clearAnimation :: "world \<Rightarrow> world" where
  "clearAnimation w =
     (case animationId w of None \<Rightarrow> w
      | Some h \<Rightarrow> (cancelAnimationFrame h w)\<lparr>animationId := None\<rparr>)"

definition cancelTimers :: "world \<Rightarrow> world" where
  "cancelTimers w = clearAnimation (clearItemSpawnTimer (clearLevelUpTimer w))"

definition endGame :: "jsstring \<Rightarrow> world \<Rightarrow> world" where
  "endGame reason w =
     (let w1 = cancelTimers (w\<lparr>isGameActive := False\<rparr>)
      in if onGameEnd w1
         then emit (GameEnd reason (score w1) (level w1) (fruitsCaught w1)) w1
         else w1)"

text \<open>The \<open>forEach\<close> of \<open>stop\<close> over the item collection.\<close>

fun removeEach :: "item list \<Rightarrow> world \<Rightarrow> world" where
  "removeEach [] w = w"
| "removeEach (it # its) w =
     removeEach its (if onItemRemove w then emit (ItemRemove (item_id it)) w else w)"

definition stop :: "world \<Rightarrow> world" where
  "stop w =
     (let w1 = cancelTimers (w\<lparr>isGameActive := False\<rparr>)
      in (removeEach (items w1) w1)\<lparr>items := []\<rparr>)"

subsection \<open>The level-up timer\<close>

text \<open>
  The callback handed to \<open>setInterval\<close>, and \<open>startLevelUpTimer\<close> that arms it with a
  period of 20000 ms.
\<close>

definition levelUpCallback :: "world \<Rightarrow> world" where
  "levelUpCallback w =
     (if level w < 5 then notifyScoreChange (w\<lparr>level := level w + 1\<rparr>) else w)"

definition startLevelUpTimer :: "world \<Rightarrow> world" where
  "startLevelUpTimer w = (setInterval 20000 w)\<lparr>levelUpTimer := Some (newTimer w)\<rparr>"

text \<open>
  Time passing on the host. An interval is due at \<open>hostDue\<close>, then one period later, and so
  on; when \<open>d\<close> milliseconds pass, the host runs the callback of each live interval once
  for every due time up to the new clock value, moving \<open>hostDue\<close> on by one period each
  time. Every interval of this program runs \<open>levelUpCallback\<close>, which changes neither the
  host nor anything it reads but the level, so taking the live intervals one after the other
  gives the state that taking their firings in order of time gives.
\<close>

definition dueCount :: "nat \<Rightarrow> nat \<Rightarrow> world \<Rightarrow> nat" where
  "dueCount h d w =
     (if hostDue w h \<le> hostClock w + int d
      then nat ((hostClock w + int d - hostDue w h) div hostPeriod w h) + 1
      else 0)"

definition fireInterval :: "nat \<Rightarrow> world \<Rightarrow> world" where
  "fireInterval h w = (levelUpCallback w)\<lparr>hostDue := (hostDue w)(h := hostDue w h + hostPeriod w h)\<rparr>"

fun fireTimes :: "nat \<Rightarrow> nat \<Rightarrow> world \<Rightarrow> world" where
  "fireTimes 0 h w = w"
| "fireTimes (Suc n) h w = fireTimes n h (fireInterval h w)"

fun fireAll :: "nat list \<Rightarrow> nat \<Rightarrow> world \<Rightarrow> world" where
  "fireAll [] d w = w"
| "fireAll (h # hs) d w = fireAll hs d (fireTimes (dueCount h d w) h w)"

definition elapse :: "nat \<Rightarrow> world \<Rightarrow> world" where
  "elapse d w = (fireAll (hostIntervals w) d w)\<lparr>hostClock := hostClock w + int d\<rparr>"

subsection \<open>Creating items\<close>

text \<open>
  \<open>createItem\<close>: the key and the zone are the results of \<open>selectItemType()\<close> and
  \<open>selectRandomZone()\<close>, \<open>now\<close> is the reading of \<open>Date.now()\<close>. With a registered
  callback the level's configuration is read, and reading \<open>fallDuration\<close> of
  \<open>undefined\<close> throws.
\<close>

definition createItem :: "itemKey \<Rightarrow> zone \<Rightarrow> int \<Rightarrow> world \<Rightarrow> js_error + world" where
  "createItem ty z now w =
     (let it = \<lparr>item_id = itemIdCounter w, item_type = ty, item_zone = z, item_y = 0,
                item_createdAt = now\<rparr>;
          w1 = w\<lparr>itemIdCounter := itemIdCounter w + 1, items := items w @ [it]\<rparr>
      in if onItemCreate w1
         then (case levelConfig (min (level w1) 5) of
                 None \<Rightarrow> Inl TypeError
               | Some config \<Rightarrow> Inr (emit (ItemCreate it (fallDuration config)) w1))
         else Inr w1)"

text \<open>
  The closure \<open>spawnItem\<close> of \<open>startItemSpawning\<close>. The delay of the next spawn
  (1500 ms plus a random part below 1000 ms) is real time and shows only as the moment
  the host fires the handle.
\<close>

definition spawnItem :: "itemKey \<Rightarrow> zone \<Rightarrow> int \<Rightarrow> world \<Rightarrow> js_error + world" where
  "spawnItem ty z now w =
     (if \<not> isGameActive w then Inr w
      else case createItem ty z now w of
             Inl e \<Rightarrow> Inl e
           | Inr w1 \<Rightarrow> Inr ((setTimeout w1)\<lparr>itemSpawnTimer := Some (newTimer w1)\<rparr>))"

definition startItemSpawning :: "itemKey \<Rightarrow> zone \<Rightarrow> int \<Rightarrow> world \<Rightarrow> js_error + world" where
  "startItemSpawning ty z now w = spawnItem ty z now w"

subsection \<open>Resolving items\<close>

definition checkCollision :: "item \<Rightarrow> world \<Rightarrow> bool" where
  "checkCollision it w = (Zone (item_zone it) = basketPosition w)"

definition handleItemCatch :: "item \<Rightarrow> world \<Rightarrow> world" where
  "handleItemCatch it w =
     (let itemData = itemTypes (item_type it)
      in if isFruit itemData
         then (let w1 = w\<lparr>score := score w + itemScore itemData, combo := combo w + 1,
                          fruitsCaught := fruitsCaught w + 1\<rparr>;
                   w2 = (if combo w1 = 5 then w1\<lparr>score := score w1 + 50\<rparr>
                         else if combo w1 = 10 then w1\<lparr>score := score w1 + 100\<rparr>
                         else w1)
               in notifyScoreChange w2)
         else endGame reasonBomb w)"

definition handleItemMiss :: "item \<Rightarrow> world \<Rightarrow> world" where
  "handleItemMiss it w =
     (let itemData = itemTypes (item_type it)
      in if isFruit itemData
         then (let w1 = notifyScoreChange (w\<lparr>missCount := missCount w + 1, combo := 0\<rparr>)
               in if missCount w1 \<ge> maxMisses w1 then endGame reasonMisses w1 else w1)
         else w)"

text \<open>
  The first \<open>forEach\<close> of \<open>updateItems\<close>: it walks the collection as it was when the
  loop began (no handler changes the collection), resolves every item whose fall is over
  and collects its id. Clock readings and fall durations are whole numbers of
  milliseconds and the duration is positive, so \<open>elapsed / fallDuration >= 1.0\<close> is
  \<open>elapsed \<ge> fallDuration\<close>.
\<close>

fun resolveEach :: "levelCfg \<Rightarrow> int \<Rightarrow> item list \<Rightarrow> nat list \<Rightarrow> world \<Rightarrow> world \<times> nat list" where
  "resolveEach config now [] itemsToRemove w = (w, itemsToRemove)"
| "resolveEach config now (it # its) itemsToRemove w =
     (if now - item_createdAt it \<ge> fallDuration config
      then resolveEach config now its (itemsToRemove @ [item_id it])
             (if checkCollision it w then handleItemCatch it w else handleItemMiss it w)
      else resolveEach config now its itemsToRemove w)"

text \<open>\<open>findIndex\<close> followed by \<open>splice(index, 1)\<close>: the first item with the id goes.\<close>

fun spliceId :: "nat \<Rightarrow> item list \<Rightarrow> item list" where
  "spliceId i [] = []"
| "spliceId i (it # its) = (if item_id it = i then its else it # spliceId i its)"

text \<open>The second \<open>forEach\<close> of \<open>updateItems\<close>, over the collected ids.\<close>

fun evictEach :: "nat list \<Rightarrow> world \<Rightarrow> world" where
  "evictEach [] w = w"
| "evictEach (i # ids) w =
     (let w1 = w\<lparr>items := spliceId i (items w)\<rparr>
      in evictEach ids (if onItemRemove w1 then emit (ItemRemove i) w1 else w1))"

text \<open>
  \<open>updateItems\<close>: the configuration is looked up once; it is only dereferenced inside
  the first loop, so an \<open>undefined\<close> configuration throws exactly when there is an item
  to look at.
\<close>

definition updateItems :: "int \<Rightarrow> world \<Rightarrow> js_error + world" where
  "updateItems now w =
     (case levelConfig (min (level w) 5) of
        None \<Rightarrow> (if items w = [] then Inr w else Inl TypeError)
      | Some config \<Rightarrow>
          (case resolveEach config now (items w) [] w of
             (w1, itemsToRemove) \<Rightarrow> Inr (evictEach itemsToRemove w1)))"

definition gameLoop :: "int \<Rightarrow> world \<Rightarrow> js_error + world" where
  "gameLoop now w =
     (if \<not> isGameActive w then Inr w
      else case updateItems now w of
             Inl e \<Rightarrow> Inl e
           | Inr w1 \<Rightarrow> Inr ((requestAnimationFrame w1)\<lparr>animationId := Some (newFrame w1)\<rparr>))"

subsection \<open>Starting and pose input\<close>

text \<open>
  \<open>start\<close> reads the clock three times: for \<open>gameStartTime\<close>, for the first item, and
  in the first pass of the game loop.
\<close>

definition start :: "int \<Rightarrow> itemKey \<Rightarrow> zone \<Rightarrow> int \<Rightarrow> int \<Rightarrow> world \<Rightarrow> js_error + world" where
  "start t0 ty z t1 t2 w =
     (let w1 = w\<lparr>isGameActive := True, score := 0, level := 1, missCount := 0, combo := 0,
                  fruitsCaught := 0, basketPosition := Zone CENTER, items := [],
                  itemIdCounter := 0, gameStartTime := t0\<rparr>;
          w2 = startLevelUpTimer (notifyScoreChange w1)
      in case startItemSpawning ty z t1 w2 of
           Inl e \<Rightarrow> Inl e
         | Inr w3 \<Rightarrow> gameLoop t2 w3)"

definition onPoseDetected :: "jsstring \<Rightarrow> world \<Rightarrow> world" where
  "onPoseDetected pose w =
     (if \<not> isGameActive w then w
      else case poseToZone pose of
             None \<Rightarrow> w
           | Some newPosition \<Rightarrow>
               if newPosition \<noteq> basketPosition w
               then (let w1 = w\<lparr>basketPosition := newPosition\<rparr>
                     in if onBasketMove w1 then emit (BasketMove (basketPosition w1)) w1 else w1)
               else w)"

subsection \<open>Runs of the engine\<close>

text \<open>
  What can happen to an engine: a call of \<open>start\<close>, \<open>stop\<close> or \<open>onPoseDetected\<close>, the
  host firing a timeout or a frame, or time passing on the host, which fires the intervals
  that fall due. The host never fires a handle that is not live; firing a timeout or a
  frame uses it up. When a timeout or a frame fires is for the host to say (the spawn
  delay is random, the frame rate is the display's), so these two are not tied to the
  timer clock. An event carries what the call
  reads from outside: \<open>Start t0 ty z t1 t2\<close> the clock for \<open>gameStartTime\<close>, the key and
  zone drawn for the first item, the clock at its creation and the clock in the first pass
  of the loop; \<open>SpawnFire h ty z now\<close> the handle fired, the key and zone drawn and the
  clock; \<open>FrameFire h now\<close> the handle fired and the clock; \<open>Elapse d\<close> the milliseconds
  that pass.
\<close>

datatype event =
    Start int itemKey zone int int
  | Stop
  | Pose jsstring
  | Elapse nat
  | SpawnFire nat itemKey zone int
  | FrameFire nat int

fun step :: "event \<Rightarrow> world \<Rightarrow> js_error + world" where
  "step (Start t0 ty z t1 t2) w = start t0 ty z t1 t2 w"
| "step Stop w = Inr (stop w)"
| "step (Pose pose) w = Inr (onPoseDetected pose w)"
| "step (Elapse d) w = Inr (elapse d w)"
| "step (SpawnFire h ty z now) w =
     (if h \<in> set (hostTimeouts w)
      then spawnItem ty z now (w\<lparr>hostTimeouts := removeAll h (hostTimeouts w)\<rparr>)
      else Inr w)"
| "step (FrameFire h now) w =
     (if h \<in> set (hostFrames w)
      then gameLoop now (w\<lparr>hostFrames := removeAll h (hostFrames w)\<rparr>)
      else Inr w)"

fun run :: "event list \<Rightarrow> world \<Rightarrow> js_error + world" where
  "run [] w = Inr w"
| "run (e # es) w = (case step e w of Inl x \<Rightarrow> Inl x | Inr w1 \<Rightarrow> run es w1)"

text \<open>An engine with all five callbacks registered, as the page sets it up before \<open>start\<close>.\<close>

definition wired :: world where
  "wired = setGameEndCallback True (setBasketMoveCallback True (setItemRemoveCallback True
             (setItemCreateCallback True (setScoreChangeCallback True constructor))))"

subsection \<open>Vocabulary of the properties\<close>

text \<open>A streak of catches: \<open>handleItemCatch\<close> applied to one item after the other.\<close>

fun catchEach :: "item list \<Rightarrow> world \<Rightarrow> world" where
  "catchEach [] w = w"
| "catchEach (it # its) w = catchEach its (handleItemCatch it w)"

fun isStart :: "event \<Rightarrow> bool" where
  "isStart (Start t0 ty z t1 t2) = True"
| "isStart e = False"

text \<open>A sample item for concrete instances.\<close>

definition appleAt :: "nat \<Rightarrow> item" where
  "appleAt i = \<lparr>item_id = i, item_type = apple, item_zone = CENTER, item_y = 0, item_createdAt = 0\<rparr>"

text \<open>The ids of the item-created and of the item-removed notifications of a log, in order.\<close>

fun createdIds :: "notification list \<Rightarrow> nat list" where
  "createdIds [] = []"
| "createdIds (ItemCreate it d # ns) = item_id it # createdIds ns"
| "createdIds (n # ns) = createdIds ns"

fun removedIds :: "notification list \<Rightarrow> nat list" where
  "removedIds [] = []"
| "removedIds (ItemRemove i # ns) = i # removedIds ns"
| "removedIds (n # ns) = removedIds ns"

text \<open>The ids of the items in the collection, in order.\<close>

definition itemIds :: "world \<Rightarrow> nat list" where
  "itemIds w = map item_id (items w)"

text \<open>The level has a configuration.\<close>

definition levelOk :: "world \<Rightarrow> bool" where
  "levelOk w = (1 \<le> level w \<and> level w \<le> 5)"

text \<open>
  What resolving an item never touches: level, \<open>maxMisses\<close>, the collection, the id counter,
  the callback slots, and the created and removed ids of the log.
\<close>

definition kept ::
  "world \<Rightarrow> int \<times> int \<times> item list \<times> nat \<times> (bool \<times> bool \<times> bool \<times> bool \<times> bool) \<times> nat list \<times> nat list" where
  "kept w = (level w, maxMisses w, items w, itemIdCounter w,
             (onScoreChange w, onItemCreate w, onItemRemove w, onBasketMove w, onGameEnd w),
             createdIds (emitted w), removedIds (emitted w))"

text \<open>The miss counter is not negative, and an engine that has used up its misses is not active.\<close>

definition missOk :: "world \<Rightarrow> bool" where
  "missOk w = (maxMisses w = 3 \<and> 0 \<le> missCount w \<and> (maxMisses w \<le> missCount w \<longrightarrow> \<not> isGameActive w))"

text \<open>
  The books of a session balance: the ids created so far are 0 up to the counter, each is
  either in the collection or has been removed, and none of them twice.
\<close>

definition ledgerOk :: "world \<Rightarrow> bool" where
  "ledgerOk w =
     (onItemCreate w \<and> onItemRemove w \<and> levelOk w \<and>
      createdIds (emitted w) = [0..<itemIdCounter w] \<and>
      distinct (removedIds (emitted w) @ itemIds w) \<and>
      set (removedIds (emitted w)) \<union> set (itemIds w) = {0..<itemIdCounter w})"

text \<open>
  A state with the callback slots and the notification log blanked: what is left is every
  field the engine computes with, and the host.
\<close>

definition core :: "world \<Rightarrow> world" where
  "core w = w\<lparr>onScoreChange := False, onItemCreate := False, onItemRemove := False,
              onBasketMove := False, onGameEnd := False, emitted := []\<rparr>"

text \<open>The same state with a function in each of the five callback slots.\<close>

definition registerAll :: "world \<Rightarrow> world" where
  "registerAll w = w\<lparr>onScoreChange := True, onItemCreate := True, onItemRemove := True,
                     onBasketMove := True, onGameEnd := True\<rparr>"




section \<open>Properties\<close>

subsection \<open>Unfolding the model\<close>

lemmas host_defs = emit_def setInterval_def setTimeout_def requestAnimationFrame_def
  clearTimer_def cancelAnimationFrame_def newTimer_def newFrame_def

lemmas clear_defs = cancelTimers_def clearLevelUpTimer_def clearItemSpawnTimer_def
  clearAnimation_def

lemmas engine_defs = wired_def constructor_def setScoreChangeCallback_def
  setItemCreateCallback_def setItemRemoveCallback_def setBasketMoveCallback_def
  setGameEndCallback_def start_def stop_def gameLoop_def updateItems_def
  startItemSpawning_def spawnItem_def createItem_def startLevelUpTimer_def
  levelUpCallback_def notifyScoreChange_def endGame_def handleItemCatch_def
  handleItemMiss_def checkCollision_def onPoseDetected_def levelConfig_def

subsection \<open>Cancelling the timers\<close>

lemma cancelTimers_engine [simp]:
  "score (cancelTimers w) = score w"
  "level (cancelTimers w) = level w"
  "missCount (cancelTimers w) = missCount w"
  "maxMisses (cancelTimers w) = maxMisses w"
  "combo (cancelTimers w) = combo w"
  "fruitsCaught (cancelTimers w) = fruitsCaught w"
  "gameStartTime (cancelTimers w) = gameStartTime w"
  "isGameActive (cancelTimers w) = isGameActive w"
  "basketPosition (cancelTimers w) = basketPosition w"
  "items (cancelTimers w) = items w"
  "itemIdCounter (cancelTimers w) = itemIdCounter w"
  by (simp_all add: clear_defs host_defs split: option.splits)

lemma cancelTimers_slots [simp]:
  "onScoreChange (cancelTimers w) = onScoreChange w"
  "onItemCreate (cancelTimers w) = onItemCreate w"
  "onItemRemove (cancelTimers w) = onItemRemove w"
  "onBasketMove (cancelTimers w) = onBasketMove w"
  "onGameEnd (cancelTimers w) = onGameEnd w"
  "emitted (cancelTimers w) = emitted w"
  "hostTimerSeq (cancelTimers w) = hostTimerSeq w"
  "hostFrameSeq (cancelTimers w) = hostFrameSeq w"
  by (simp_all add: clear_defs host_defs split: option.splits)

lemma cancelTimers_handles [simp]:
  "levelUpTimer (cancelTimers w) = None"
  "itemSpawnTimer (cancelTimers w) = None"
  "animationId (cancelTimers w) = None"
  by (simp_all add: clear_defs host_defs split: option.splits)

lemma cancelTimers_cancelled:
  "levelUpTimer w = Some h \<Longrightarrow> h \<notin> set (hostIntervals (cancelTimers w))"
  "itemSpawnTimer w = Some h \<Longrightarrow> h \<notin> set (hostTimeouts (cancelTimers w))"
  "animationId w = Some h \<Longrightarrow> h \<notin> set (hostFrames (cancelTimers w))"
  by (simp_all add: clear_defs host_defs split: option.splits)

lemma cancelTimers_idle:
  assumes "levelUpTimer w = None" "itemSpawnTimer w = None" "animationId w = None"
  shows "cancelTimers w = w"
  using assms by (simp add: clear_defs)

subsection \<open>Closed forms of the small operations\<close>

lemma notifyScoreChange_upd:
  "notifyScoreChange w =
     w\<lparr>emitted := emitted w @
          (if onScoreChange w
           then [ScoreChange (score w) (level w) (missCount w) (maxMisses w) (combo w)]
           else [])\<rparr>"
  by (simp add: notifyScoreChange_def emit_def)

lemma notifyScoreChange_fields [simp]:
  "score (notifyScoreChange w) = score w"
  "level (notifyScoreChange w) = level w"
  "missCount (notifyScoreChange w) = missCount w"
  "maxMisses (notifyScoreChange w) = maxMisses w"
  "combo (notifyScoreChange w) = combo w"
  "fruitsCaught (notifyScoreChange w) = fruitsCaught w"
  "isGameActive (notifyScoreChange w) = isGameActive w"
  "basketPosition (notifyScoreChange w) = basketPosition w"
  "items (notifyScoreChange w) = items w"
  "itemIdCounter (notifyScoreChange w) = itemIdCounter w"
  "onScoreChange (notifyScoreChange w) = onScoreChange w"
  "onItemCreate (notifyScoreChange w) = onItemCreate w"
  "onItemRemove (notifyScoreChange w) = onItemRemove w"
  "onBasketMove (notifyScoreChange w) = onBasketMove w"
  "onGameEnd (notifyScoreChange w) = onGameEnd w"
  by (simp_all add: notifyScoreChange_upd)

lemma endGame_engine [simp]:
  "score (endGame r w) = score w"
  "level (endGame r w) = level w"
  "missCount (endGame r w) = missCount w"
  "maxMisses (endGame r w) = maxMisses w"
  "combo (endGame r w) = combo w"
  "fruitsCaught (endGame r w) = fruitsCaught w"
  "gameStartTime (endGame r w) = gameStartTime w"
  "isGameActive (endGame r w) = False"
  "basketPosition (endGame r w) = basketPosition w"
  "items (endGame r w) = items w"
  "itemIdCounter (endGame r w) = itemIdCounter w"
  by (simp_all add: endGame_def Let_def emit_def)

lemma endGame_slots [simp]:
  "onScoreChange (endGame r w) = onScoreChange w"
  "onItemCreate (endGame r w) = onItemCreate w"
  "onItemRemove (endGame r w) = onItemRemove w"
  "onBasketMove (endGame r w) = onBasketMove w"
  "onGameEnd (endGame r w) = onGameEnd w"
  "levelUpTimer (endGame r w) = None"
  "itemSpawnTimer (endGame r w) = None"
  "animationId (endGame r w) = None"
  by (simp_all add: endGame_def Let_def emit_def)

lemma endGame_emitted:
  "emitted (endGame r w) =
     emitted w @ (if onGameEnd w then [GameEnd r (score w) (level w) (fruitsCaught w)] else [])"
  by (simp add: endGame_def Let_def emit_def)

lemma removeEach_upd:
  "removeEach its w =
     w\<lparr>emitted := emitted w @ (if onItemRemove w then map (\<lambda>it. ItemRemove (item_id it)) its else [])\<rparr>"
  by (induction its arbitrary: w) (simp_all add: emit_def)

lemma evictEach_upd:
  "evictEach ids w =
     w\<lparr>items := foldl (\<lambda>xs i. spliceId i xs) (items w) ids,
        emitted := emitted w @ (if onItemRemove w then map ItemRemove ids else [])\<rparr>"
  by (induction ids arbitrary: w) (simp_all add: emit_def Let_def)

lemma catch_bomb: "item_type it = bomb \<Longrightarrow> handleItemCatch it w = endGame reasonBomb w"
  by (simp add: handleItemCatch_def)

lemma catch_fruit:
  assumes "isFruit (itemTypes (item_type it))"
  shows "handleItemCatch it w =
     w\<lparr>score := score w + itemScore (itemTypes (item_type it))
                 + (if combo w + 1 = 5 then 50 else if combo w + 1 = 10 then 100 else 0),
        combo := combo w + 1,
        fruitsCaught := fruitsCaught w + 1,
        emitted := emitted w @
          (if onScoreChange w
           then [ScoreChange (score w + itemScore (itemTypes (item_type it))
                               + (if combo w + 1 = 5 then 50 else if combo w + 1 = 10 then 100 else 0))
                   (level w) (missCount w) (maxMisses w) (combo w + 1)]
           else [])\<rparr>"
  using assms by (simp add: handleItemCatch_def Let_def notifyScoreChange_upd)

lemma miss_bomb: "\<not> isFruit (itemTypes (item_type it)) \<Longrightarrow> handleItemMiss it w = w"
  by (simp add: handleItemMiss_def)

lemma miss_fruit:
  assumes "isFruit (itemTypes (item_type it))"
  shows "handleItemMiss it w =
     (if maxMisses w \<le> missCount w + 1
      then endGame reasonMisses (notifyScoreChange (w\<lparr>missCount := missCount w + 1, combo := 0\<rparr>))
      else notifyScoreChange (w\<lparr>missCount := missCount w + 1, combo := 0\<rparr>))"
  using assms by (simp add: handleItemMiss_def Let_def notifyScoreChange_upd)

lemma levelUpCallback_upd:
  "levelUpCallback w =
     (if level w < 5
      then w\<lparr>level := level w + 1,
             emitted := emitted w @
               (if onScoreChange w
                then [ScoreChange (score w) (level w + 1) (missCount w) (maxMisses w) (combo w)]
                else [])\<rparr>
      else w)"
  by (simp add: levelUpCallback_def notifyScoreChange_upd)

text \<open>Whatever the level-up callback and the host's bookkeeping preserve, time passing preserves.\<close>

lemma fireTimes_preserves:
  assumes "\<And>w. P w \<Longrightarrow> P (levelUpCallback w)"
    and "\<And>w f. P w \<Longrightarrow> P (w\<lparr>hostDue := f\<rparr>)"
    and "P w"
  shows "P (fireTimes n h w)"
  using assms(3)
proof (induction n arbitrary: w)
  case 0
  then show ?case by simp
next
  case (Suc n)
  have "P (fireInterval h w)"
    unfolding fireInterval_def using Suc.prems by (intro assms(1,2))
  then show ?case using Suc.IH by simp
qed

lemma fireAll_preserves:
  assumes "\<And>w. P w \<Longrightarrow> P (levelUpCallback w)"
    and "\<And>w f. P w \<Longrightarrow> P (w\<lparr>hostDue := f\<rparr>)"
    and "P w"
  shows "P (fireAll hs d w)"
  using assms(3)
proof (induction hs arbitrary: w)
  case Nil
  then show ?case by simp
next
  case (Cons h hs)
  have "P (fireTimes (dueCount h d w) h w)"
    using assms(1,2) Cons.prems by (rule fireTimes_preserves)
  then show ?case using Cons.IH by simp
qed

lemma elapse_preserves:
  assumes "\<And>w. P w \<Longrightarrow> P (levelUpCallback w)"
    and "\<And>w f. P w \<Longrightarrow> P (w\<lparr>hostDue := f\<rparr>)"
    and "\<And>w c. P w \<Longrightarrow> P (w\<lparr>hostClock := c\<rparr>)"
    and "P w"
  shows "P (elapse d w)"
proof -
  have "P (fireAll (hostIntervals w) d w)"
    using assms(1,2,4) by (rule fireAll_preserves)
  then show ?thesis unfolding elapse_def by (rule assms(3))
qed

lemma elapse_fields:
  "items (elapse d w) = items w"
  "isGameActive (elapse d w) = isGameActive w"
  "score (elapse d w) = score w"
  "combo (elapse d w) = combo w"
  "missCount (elapse d w) = missCount w"
  "fruitsCaught (elapse d w) = fruitsCaught w"
  "basketPosition (elapse d w) = basketPosition w"
proof -
  let ?P = "\<lambda>v. items v = items w \<and> isGameActive v = isGameActive w \<and> score v = score w
      \<and> combo v = combo w \<and> missCount v = missCount w \<and> fruitsCaught v = fruitsCaught w
      \<and> basketPosition v = basketPosition w"
  have "?P (elapse d w)"
    by (rule elapse_preserves [where P = ?P]) (simp_all add: levelUpCallback_upd)
  then show "items (elapse d w) = items w"
    "isGameActive (elapse d w) = isGameActive w"
    "score (elapse d w) = score w"
    "combo (elapse d w) = combo w"
    "missCount (elapse d w) = missCount w"
    "fruitsCaught (elapse d w) = fruitsCaught w"
    "basketPosition (elapse d w) = basketPosition w"
    by simp_all
qed

subsection \<open>Stopping twice\<close>

lemma stop_settled:
  "\<not> isGameActive (stop w) \<and> levelUpTimer (stop w) = None \<and> itemSpawnTimer (stop w) = None
   \<and> animationId (stop w) = None \<and> items (stop w) = []"
  by (simp add: stop_def Let_def removeEach_upd)

lemma stop_fixpoint:
  assumes "\<not> isGameActive w" "levelUpTimer w = None" "itemSpawnTimer w = None"
    "animationId w = None" "items w = []"
  shows "stop w = w"
proof -
  have "w\<lparr>isGameActive := False\<rparr> = w" using assms(1) by (cases w) simp
  then have "cancelTimers (w\<lparr>isGameActive := False\<rparr>) = w"
    using assms by (simp add: cancelTimers_idle)
  then show ?thesis using assms(5) by (simp add: stop_def Let_def)
qed

lemma stop_items: "items (stop w) = []"
  by (simp add: stop_def Let_def)

text \<open>
  Claim C7. \<open>stop()\<close> is idempotent: a second call in succession returns the state the
  first call left, in every field, host and notification log included, so the second call
  emits no item-removed notification. \<open>stop\<close> has no failing branch: with no timer armed
  each of its three guards is skipped.
\<close>

theorem stop_idempotent:
  "stop (stop w) = stop w \<and> emitted (stop (stop w)) = emitted (stop w)"
  using stop_settled [of w] by (simp add: stop_fixpoint)

theorem stop_idempotent_witness:
  "stop (stop wired) = stop wired \<and> emitted (stop (stop wired)) = emitted (stop wired)"
  using stop_idempotent [of wired] by simp

subsection \<open>Catching a bomb\<close>

text \<open>
  Claim C4. In every state, whatever \<open>missCount\<close> and \<open>combo\<close> are, resolving the catch
  of a bomb ends the game at once: the engine is no longer active, its three timer fields
  are null, a registered game-end callback receives the bomb reason with the score, level
  and fruit count as they were, and \<open>score\<close>, \<open>combo\<close>, \<open>missCount\<close> and \<open>fruitsCaught\<close>
  do not change.
\<close>

theorem bomb_catch_ends_game:
  assumes "item_type it = bomb"
  shows "\<not> isGameActive (handleItemCatch it w)
     \<and> levelUpTimer (handleItemCatch it w) = None
     \<and> itemSpawnTimer (handleItemCatch it w) = None
     \<and> animationId (handleItemCatch it w) = None
     \<and> emitted (handleItemCatch it w) =
         emitted w @ (if onGameEnd w
                      then [GameEnd reasonBomb (score w) (level w) (fruitsCaught w)] else [])
     \<and> score (handleItemCatch it w) = score w
     \<and> combo (handleItemCatch it w) = combo w
     \<and> missCount (handleItemCatch it w) = missCount w
     \<and> fruitsCaught (handleItemCatch it w) = fruitsCaught w"
  using assms by (simp add: catch_bomb endGame_emitted)

theorem bomb_catch_ends_game_witness:
  "\<not> isGameActive (handleItemCatch ((appleAt 0)\<lparr>item_type := bomb\<rparr>) wired) \<and>
   emitted (handleItemCatch ((appleAt 0)\<lparr>item_type := bomb\<rparr>) wired) = [GameEnd reasonBomb 0 1 0]"
  using bomb_catch_ends_game [of "(appleAt 0)\<lparr>item_type := bomb\<rparr>" wired]
  by (simp add: appleAt_def wired_def constructor_def setScoreChangeCallback_def
      setItemCreateCallback_def setItemRemoveCallback_def setBasketMoveCallback_def
      setGameEndCallback_def)

subsection \<open>Catching fruit\<close>

lemma streak_score:
  assumes "\<forall>it \<in> set its. isFruit (itemTypes (item_type it))"
  shows "score (catchEach its w) =
           score w + (\<Sum>it\<leftarrow>its. itemScore (itemTypes (item_type it)))
           + (if combo w < 5 \<and> 5 \<le> combo w + int (length its) then 50 else 0)
           + (if combo w < 10 \<and> 10 \<le> combo w + int (length its) then 100 else 0)
       \<and> combo (catchEach its w) = combo w + int (length its)"
  using assms
proof (induction its arbitrary: w)
  case Nil
  then show ?case by simp
next
  case (Cons it its)
  have f: "isFruit (itemTypes (item_type it))" using Cons.prems by simp
  have r: "\<forall>x \<in> set its. isFruit (itemTypes (item_type x))" using Cons.prems by simp
  show ?case
    using Cons.IH [OF r, of "handleItemCatch it w"]
    by (simp add: catch_fruit [OF f])
qed

lemma sum_list_const:
  "\<forall>x \<in> set xs. f x = (c::int) \<Longrightarrow> sum_list (map f xs) = c * int (length xs)"
  by (induction xs) (simp_all add: algebra_simps)

lemma five_apples:
  assumes "\<forall>it \<in> set its. item_type it = apple" "length its = 5" "combo w = 0"
  shows "score (catchEach its w) = score w + 550"
proof -
  have f: "\<forall>it \<in> set its. isFruit (itemTypes (item_type it))" using assms(1) by simp
  have "\<forall>it \<in> set its. itemScore (itemTypes (item_type it)) = 100" using assms(1) by simp
  then have "(\<Sum>it\<leftarrow>its. itemScore (itemTypes (item_type it))) = 100 * int (length its)"
    by (rule sum_list_const)
  then show ?thesis using streak_score [OF f, of w] assms(2,3) by simp
qed

text \<open>
  Claim C5. Catching a fruit adds the item's catalog value to the score, adds 1 to \<open>combo\<close>
  and to \<open>fruitsCaught\<close>, adds the bonus 50 exactly when the new combo is 5 and 100
  exactly when it is 10, and hands the new values to a registered score-change callback.
  Along an unbroken streak of catches each bonus is therefore paid once, at the catch that
  takes the combo to its threshold; five catches of a 100-point fruit from combo 0 add 550.
\<close>

theorem fruit_catch_scoring:
  assumes "isFruit (itemTypes (item_type it))"
    and "\<forall>x \<in> set its. isFruit (itemTypes (item_type x))"
    and "\<forall>x \<in> set apples. item_type x = apple" and "length apples = 5" and "combo w0 = 0"
  shows "score (handleItemCatch it w) =
           score w + itemScore (itemTypes (item_type it))
           + (if combo w + 1 = 5 then 50 else if combo w + 1 = 10 then 100 else 0)
     \<and> combo (handleItemCatch it w) = combo w + 1
     \<and> fruitsCaught (handleItemCatch it w) = fruitsCaught w + 1
     \<and> emitted (handleItemCatch it w) =
           emitted w @ (if onScoreChange w
                        then [ScoreChange (score (handleItemCatch it w)) (level w) (missCount w)
                                (maxMisses w) (combo w + 1)]
                        else [])
     \<and> score (catchEach its w) =
           score w + (\<Sum>x\<leftarrow>its. itemScore (itemTypes (item_type x)))
           + (if combo w < 5 \<and> 5 \<le> combo w + int (length its) then 50 else 0)
           + (if combo w < 10 \<and> 10 \<le> combo w + int (length its) then 100 else 0)
     \<and> score (catchEach apples w0) = score w0 + 550"
proof -
  have one: "handleItemCatch it w =
     w\<lparr>score := score w + itemScore (itemTypes (item_type it))
                 + (if combo w + 1 = 5 then 50 else if combo w + 1 = 10 then 100 else 0),
        combo := combo w + 1,
        fruitsCaught := fruitsCaught w + 1,
        emitted := emitted w @
          (if onScoreChange w
           then [ScoreChange (score w + itemScore (itemTypes (item_type it))
                               + (if combo w + 1 = 5 then 50 else if combo w + 1 = 10 then 100 else 0))
                   (level w) (missCount w) (maxMisses w) (combo w + 1)]
           else [])\<rparr>"
    using assms(1) by (rule catch_fruit)
  have many: "score (catchEach its w) =
           score w + (\<Sum>x\<leftarrow>its. itemScore (itemTypes (item_type x)))
           + (if combo w < 5 \<and> 5 \<le> combo w + int (length its) then 50 else 0)
           + (if combo w < 10 \<and> 10 \<le> combo w + int (length its) then 100 else 0)"
    using streak_score [OF assms(2), of w] by simp
  have five: "score (catchEach apples w0) = score w0 + 550"
    using assms(3-5) by (rule five_apples)
  show ?thesis
    unfolding one using many five by simp
qed

theorem fruit_catch_scoring_witness:
  "score (catchEach (map appleAt [0, 1, 2, 3, 4]) wired) = 550 \<and>
   score (handleItemCatch (appleAt 0) wired) = 100"
  using fruit_catch_scoring [of "appleAt 0" "[]" "map appleAt [0, 1, 2, 3, 4]" wired wired]
  by (simp add: appleAt_def wired_def constructor_def setScoreChangeCallback_def
      setItemCreateCallback_def setItemRemoveCallback_def setBasketMoveCallback_def
      setGameEndCallback_def)

subsection \<open>The combo counter after a miss and after the end\<close>

text \<open>
  Claim C2, amended. A fruit miss leaves \<open>combo\<close> at 0. \<open>endGame\<close> does not touch
  \<open>combo\<close>: after a game end the counter is what it was before, which is 0 when the
  game ends on a miss and the streak so far when it ends on a bomb.
\<close>

theorem combo_after_miss_and_end:
  "(isFruit (itemTypes (item_type it)) \<longrightarrow> combo (handleItemMiss it w) = 0)
   \<and> combo (endGame reason w) = combo w"
  by (simp add: miss_fruit notifyScoreChange_upd)

theorem combo_after_miss_and_end_witness:
  "combo (handleItemMiss (appleAt 0) (wired\<lparr>combo := 7\<rparr>)) = 0
   \<and> combo (endGame reasonBomb (wired\<lparr>combo := 7\<rparr>)) = 7"
  using combo_after_miss_and_end [of "appleAt 0" "wired\<lparr>combo := 7\<rparr>" reasonBomb]
  by (simp add: appleAt_def)

text \<open>
  Claim C2 as stated fails when a bomb is caught after a fruit: the game ends with
  \<open>combo\<close> 1.
\<close>

theorem combo_kept_at_game_end:
  "map_sum id combo
     (run [Start 0 apple CENTER 0 0, SpawnFire 2 bomb CENTER 1500, FrameFire 1 4000,
           FrameFire 2 5500] wired) = Inr 1
   \<and> map_sum id emitted
     (run [Start 0 apple CENTER 0 0, SpawnFire 2 bomb CENTER 1500, FrameFire 1 4000,
           FrameFire 2 5500] wired) =
     Inr [ScoreChange 0 1 0 3 0,
          ItemCreate \<lparr>item_id = 0, item_type = apple, item_zone = CENTER, item_y = 0,
                       item_createdAt = 0\<rparr> 4000,
          ItemCreate \<lparr>item_id = 1, item_type = bomb, item_zone = CENTER, item_y = 0,
                       item_createdAt = 1500\<rparr> 4000,
          ScoreChange 100 1 0 3 1, ItemRemove 0,
          GameEnd reasonBomb 100 1 1, ItemRemove 1]"
  by (simp add: engine_defs clear_defs host_defs Let_def)

subsection \<open>The collection after the end of a game\<close>

lemma idle_step:
  assumes "\<not> isGameActive w" "\<not> isStart e" "e \<noteq> Stop"
  shows "\<exists>w'. step e w = Inr w' \<and> items w' = items w \<and> \<not> isGameActive w'"
  using assms
  by (cases e) (simp_all add: onPoseDetected_def elapse_fields spawnItem_def gameLoop_def)

text \<open>
  Claim C9. \<open>endGame\<close> leaves the item collection as it is: it deactivates the engine,
  cancels and nulls the three handles, and emits the game-end notification to a registered
  callback and nothing else, so no item-removed notification. Afterwards no event other
  than \<open>start\<close> or \<open>stop\<close> changes the collection; \<open>stop\<close> empties it.
\<close>

theorem endGame_keeps_items:
  "items (endGame reason w) = items w
   \<and> emitted (endGame reason w) =
       emitted w @ (if onGameEnd w
                    then [GameEnd reason (score w) (level w) (fruitsCaught w)] else [])
   \<and> \<not> isGameActive (endGame reason w)
   \<and> levelUpTimer (endGame reason w) = None
   \<and> itemSpawnTimer (endGame reason w) = None
   \<and> animationId (endGame reason w) = None
   \<and> (\<forall>h. levelUpTimer w = Some h \<longrightarrow> h \<notin> set (hostIntervals (endGame reason w)))
   \<and> (\<forall>h. itemSpawnTimer w = Some h \<longrightarrow> h \<notin> set (hostTimeouts (endGame reason w)))
   \<and> (\<forall>h. animationId w = Some h \<longrightarrow> h \<notin> set (hostFrames (endGame reason w)))
   \<and> (\<not> isStart e \<and> e \<noteq> Stop \<longrightarrow>
        map_sum id items (step e (endGame reason w)) = Inr (items w))
   \<and> items (stop (endGame reason w)) = []"
proof -
  have host: "hostIntervals (endGame reason w) = hostIntervals (cancelTimers (w\<lparr>isGameActive := False\<rparr>))"
    "hostTimeouts (endGame reason w) = hostTimeouts (cancelTimers (w\<lparr>isGameActive := False\<rparr>))"
    "hostFrames (endGame reason w) = hostFrames (cancelTimers (w\<lparr>isGameActive := False\<rparr>))"
    by (simp_all add: endGame_def Let_def emit_def)
  have later: "map_sum id items (step e (endGame reason w)) = Inr (items w)"
    if "\<not> isStart e \<and> e \<noteq> Stop"
    using idle_step [of "endGame reason w" e] that by auto
  show ?thesis
    using later cancelTimers_cancelled [of "w\<lparr>isGameActive := False\<rparr>"]
    by (simp add: endGame_emitted host stop_items)
qed

theorem endGame_keeps_items_witness:
  "items (endGame reasonBomb (wired\<lparr>items := [appleAt 0], levelUpTimer := Some 1,
                                        hostIntervals := [1]\<rparr>)) = [appleAt 0]
   \<and> 1 \<notin> set (hostIntervals (endGame reasonBomb
         (wired\<lparr>items := [appleAt 0], levelUpTimer := Some 1, hostIntervals := [1]\<rparr>)))
   \<and> map_sum id items (step (Pose poseLeft)
         (endGame reasonBomb (wired\<lparr>items := [appleAt 0], levelUpTimer := Some 1,
                                        hostIntervals := [1]\<rparr>))) = Inr [appleAt 0]"
  using endGame_keeps_items [of reasonBomb
      "wired\<lparr>items := [appleAt 0], levelUpTimer := Some 1, hostIntervals := [1]\<rparr>"
      "Pose poseLeft"]
  by simp

subsection \<open>Pose labels\<close>

lemma poseToZone_None:
  "poseToZone pose = None \<longleftrightarrow>
     pose \<noteq> poseLeft \<and> pose \<noteq> poseCenter \<and> pose \<noteq> poseRight \<and> pose \<notin> set objectPrototypeKeys"
  by (simp add: poseToZone_def)

lemma poseToZone_constructor:
  "poseToZone (ascii ''constructor'') = Some (Inherited (ascii ''constructor''))"
proof -
  have "ascii ''constructor'' \<in> set objectPrototypeKeys"
    by (simp add: objectPrototypeKeys_def)
  moreover have "ascii ''constructor'' \<noteq> poseLeft" "ascii ''constructor'' \<noteq> poseCenter"
    "ascii ''constructor'' \<noteq> poseRight"
    by (simp_all add: ascii_def poseLeft_def poseCenter_def poseRight_def)
  ultimately show ?thesis by (simp add: poseToZone_def)
qed

lemma onPoseDetected_cases:
  "\<not> isGameActive w \<Longrightarrow> onPoseDetected pose w = w"
  "poseToZone pose = None \<Longrightarrow> onPoseDetected pose w = w"
  "poseToZone pose = Some (basketPosition w) \<Longrightarrow> onPoseDetected pose w = w"
  "isGameActive w \<Longrightarrow> poseToZone pose = Some p \<Longrightarrow> p \<noteq> basketPosition w \<Longrightarrow>
     onPoseDetected pose w =
       w\<lparr>basketPosition := p, emitted := emitted w @ (if onBasketMove w then [BasketMove p] else [])\<rparr>"
  by (simp_all add: onPoseDetected_def emit_def)

text \<open>
  Claim C6, at the label \<open>constructor\<close>. The label is none of the three zone labels, yet
  in an active engine \<open>onPoseDetected\<close> replaces \<open>basketPosition\<close> by the member of
  \<open>Object.prototype\<close> of that name and calls the basket-move callback with it.
\<close>

theorem inherited_label_moves_basket:
  "map_sum id isGameActive (run [Start 0 apple CENTER 0 0] wired) = Inr True
   \<and> map_sum id basketPosition (run [Start 0 apple CENTER 0 0] wired) = Inr (Zone CENTER)
   \<and> map_sum id basketPosition
       (run [Start 0 apple CENTER 0 0, Pose (ascii ''constructor'')] wired)
       = Inr (Inherited (ascii ''constructor''))
   \<and> map_sum id emitted
       (run [Start 0 apple CENTER 0 0, Pose (ascii ''constructor'')] wired)
       = Inr [ScoreChange 0 1 0 3 0,
              ItemCreate \<lparr>item_id = 0, item_type = apple, item_zone = CENTER, item_y = 0,
                           item_createdAt = 0\<rparr> 4000,
              BasketMove (Inherited (ascii ''constructor''))]"
  by (simp add: engine_defs clear_defs host_defs Let_def poseToZone_constructor)

subsection \<open>The resolution and eviction loops\<close>

lemma createdIds_append: "createdIds (xs @ ys) = createdIds xs @ createdIds ys"
  by (induction xs rule: createdIds.induct) simp_all

lemma removedIds_append: "removedIds (xs @ ys) = removedIds xs @ removedIds ys"
  by (induction xs rule: removedIds.induct) simp_all

lemma removedIds_map: "removedIds (map (\<lambda>it. ItemRemove (f it)) its) = map f its"
  by (induction its) simp_all

lemma createdIds_map: "createdIds (map (\<lambda>it. ItemRemove (f it)) its) = []"
  by (induction its) simp_all

lemma removedIds_ItemRemove: "removedIds (map ItemRemove ids) = ids"
  by (induction ids) simp_all

lemma createdIds_ItemRemove: "createdIds (map ItemRemove ids) = []"
  by (induction ids) simp_all

lemma kept_notifyScoreChange [simp]: "kept (notifyScoreChange w) = kept w"
  by (simp add: kept_def notifyScoreChange_upd createdIds_append removedIds_append)

lemma kept_endGame [simp]: "kept (endGame r w) = kept w"
  by (simp add: kept_def endGame_emitted createdIds_append removedIds_append)

lemma kept_handleItemCatch [simp]: "kept (handleItemCatch it w) = kept w"
proof (cases "isFruit (itemTypes (item_type it))")
  case True
  then show ?thesis
    by (simp add: catch_fruit kept_def createdIds_append removedIds_append)
next
  case False
  then show ?thesis by (simp add: handleItemCatch_def)
qed

lemma kept_handleItemMiss [simp]: "kept (handleItemMiss it w) = kept w"
proof (cases "isFruit (itemTypes (item_type it))")
  case True
  have "kept (w\<lparr>missCount := missCount w + 1, combo := 0\<rparr>) = kept w"
    by (simp add: kept_def)
  then show ?thesis using True by (simp add: miss_fruit)
next
  case False
  then show ?thesis by (simp add: miss_bomb)
qed

text \<open>Whatever both handlers preserve, the resolution loop preserves.\<close>

lemma resolveEach_preserves:
  assumes "\<And>it w. P w \<Longrightarrow> P (handleItemCatch it w)"
    and "\<And>it w. P w \<Longrightarrow> P (handleItemMiss it w)"
    and "P w"
  shows "P (fst (resolveEach config now its acc w))"
  using assms(3)
proof (induction its arbitrary: acc w)
  case Nil
  then show ?case by simp
next
  case (Cons it its)
  then show ?case by (simp add: assms(1,2))
qed

lemma resolveEach_ids:
  "snd (resolveEach config now its acc w) =
     acc @ map item_id (filter (\<lambda>it. fallDuration config \<le> now - item_createdAt it) its)"
  by (induction its arbitrary: acc w) simp_all

lemma kept_resolveEach: "kept (fst (resolveEach config now its acc w)) = kept w"
  by (rule resolveEach_preserves [where P = "\<lambda>v. kept v = kept w"]) simp_all

lemma resolveEach_fields:
  "level (fst (resolveEach config now its acc w)) = level w"
  "maxMisses (fst (resolveEach config now its acc w)) = maxMisses w"
  "items (fst (resolveEach config now its acc w)) = items w"
  "itemIdCounter (fst (resolveEach config now its acc w)) = itemIdCounter w"
  "onItemCreate (fst (resolveEach config now its acc w)) = onItemCreate w"
  "onItemRemove (fst (resolveEach config now its acc w)) = onItemRemove w"
  "createdIds (emitted (fst (resolveEach config now its acc w))) = createdIds (emitted w)"
  "removedIds (emitted (fst (resolveEach config now its acc w))) = removedIds (emitted w)"
  using kept_resolveEach [of config now its acc w] by (simp_all add: kept_def)

lemma spliceId_ids:
  "distinct (map item_id xs) \<Longrightarrow> map item_id (spliceId i xs) = removeAll i (map item_id xs)"
  by (induction xs) auto

lemma filter_removeAll:
  "filter (\<lambda>j. j \<notin> set ids) (removeAll i ys) = filter (\<lambda>j. j \<notin> set (i # ids)) ys"
  by (induction ys) auto

lemma spliceAll_ids:
  "distinct (map item_id xs) \<Longrightarrow>
     map item_id (foldl (\<lambda>xs i. spliceId i xs) xs ids) = filter (\<lambda>j. j \<notin> set ids) (map item_id xs)"
proof (induction ids arbitrary: xs)
  case Nil
  then show ?case by simp
next
  case (Cons i ids)
  have d: "distinct (map item_id (spliceId i xs))"
    using Cons.prems by (simp add: spliceId_ids distinct_removeAll)
  have "map item_id (foldl (\<lambda>xs i. spliceId i xs) xs (i # ids))
        = filter (\<lambda>j. j \<notin> set ids) (map item_id (spliceId i xs))"
    using Cons.IH [OF d] by simp
  also have "\<dots> = filter (\<lambda>j. j \<notin> set ids) (removeAll i (map item_id xs))"
    using Cons.prems by (simp add: spliceId_ids)
  also have "\<dots> = filter (\<lambda>j. j \<notin> set (i # ids)) (map item_id xs)"
    by (rule filter_removeAll)
  finally show ?case .
qed

lemma levelConfig_defined:
  assumes "levelOk w"
  shows "\<exists>config. levelConfig (min (level w) 5) = Some config"
proof -
  have "level w = 1 \<or> level w = 2 \<or> level w = 3 \<or> level w = 4 \<or> level w = 5"
    using assms unfolding levelOk_def by arith
  then show ?thesis by (auto simp add: levelConfig_def)
qed

lemma updateItems_run:
  assumes "levelConfig (min (level w) 5) = Some config"
  shows "updateItems now w =
     Inr (evictEach (map item_id (filter (\<lambda>it. fallDuration config \<le> now - item_createdAt it) (items w)))
            (fst (resolveEach config now (items w) [] w)))"
proof (cases "resolveEach config now (items w) [] w")
  case (Pair w1 ids)
  then show ?thesis
    using assms resolveEach_ids [of config now "items w" "[]" w]
    by (simp add: updateItems_def)
qed

subsection \<open>No operation faults at a level from 1 to 5\<close>

lemma updateItems_total:
  assumes "levelOk w"
  shows "\<exists>w'. updateItems now w = Inr w' \<and> levelOk w'"
proof -
  obtain config where c: "levelConfig (min (level w) 5) = Some config"
    using levelConfig_defined [OF assms] by blast
  have "levelOk (evictEach ids (fst (resolveEach config now (items w) [] w)))" for ids
    using assms by (simp add: evictEach_upd levelOk_def resolveEach_fields)
  then show ?thesis
    by (simp add: updateItems_run [OF c])
qed

lemma createItem_total:
  assumes "levelOk w"
  shows "\<exists>w'. createItem ty z now w = Inr w' \<and> levelOk w'"
proof -
  obtain config where c: "levelConfig (min (level w) 5) = Some config"
    using levelConfig_defined [OF assms] by blast
  have l: "level w = 1 \<or> level w = 2 \<or> level w = 3 \<or> level w = 4 \<or> level w = 5"
    using assms unfolding levelOk_def by arith
  show ?thesis
    unfolding createItem_def Let_def levelOk_def
    using c l by (auto simp add: emit_def)
qed

lemma spawnItem_total:
  assumes "levelOk w"
  shows "\<exists>w'. spawnItem ty z now w = Inr w' \<and> levelOk w'"
proof (cases "isGameActive w")
  case True
  obtain w1 where "createItem ty z now w = Inr w1" "levelOk w1"
    using createItem_total [OF assms] by blast
  then show ?thesis using True by (simp add: spawnItem_def host_defs levelOk_def)
next
  case False
  then show ?thesis using assms by (simp add: spawnItem_def)
qed

lemma gameLoop_total:
  assumes "levelOk w"
  shows "\<exists>w'. gameLoop now w = Inr w' \<and> levelOk w'"
proof (cases "isGameActive w")
  case True
  obtain w1 where "updateItems now w = Inr w1" "levelOk w1"
    using updateItems_total [OF assms] by blast
  then show ?thesis using True by (simp add: gameLoop_def host_defs levelOk_def)
next
  case False
  then show ?thesis using assms by (simp add: gameLoop_def)
qed

lemma start_total: "\<exists>w'. start t0 ty z t1 t2 w = Inr w' \<and> levelOk w'"
proof -
  let ?w2 = "startLevelUpTimer (notifyScoreChange
      (w\<lparr>isGameActive := True, score := 0, level := 1, missCount := 0, combo := 0,
         fruitsCaught := 0, basketPosition := Zone CENTER, items := [],
         itemIdCounter := 0, gameStartTime := t0\<rparr>))"
  have "levelOk ?w2"
    by (simp add: levelOk_def startLevelUpTimer_def host_defs)
  then obtain w3 where w3: "spawnItem ty z t1 ?w2 = Inr w3" "levelOk w3"
    using spawnItem_total by blast
  then obtain w4 where "gameLoop t2 w3 = Inr w4" "levelOk w4"
    using gameLoop_total by blast
  then show ?thesis using w3 by (simp add: start_def startItemSpawning_def Let_def)
qed

lemma levelOk_stop: "levelOk w \<Longrightarrow> levelOk (stop w)"
  by (simp add: stop_def Let_def removeEach_upd levelOk_def)

lemma levelOk_onPoseDetected: "levelOk w \<Longrightarrow> levelOk (onPoseDetected pose w)"
  by (simp add: onPoseDetected_def emit_def levelOk_def Let_def split: option.splits)

lemma levelOk_levelUpCallback: "levelOk w \<Longrightarrow> levelOk (levelUpCallback w)"
  by (simp add: levelUpCallback_def levelOk_def)

lemma step_total:
  assumes "levelOk w"
  shows "\<exists>w'. step e w = Inr w' \<and> levelOk w'"
proof (cases e)
  case (Start t0 ty z t1 t2)
  then show ?thesis using start_total by simp
next
  case Stop
  then show ?thesis using assms by (simp add: levelOk_stop)
next
  case (Pose pose)
  then show ?thesis using assms by (simp add: levelOk_onPoseDetected)
next
  case (Elapse d)
  have "levelOk (elapse d w)"
    using levelOk_levelUpCallback
    by (rule elapse_preserves) (simp_all add: levelOk_def assms [unfolded levelOk_def])
  then show ?thesis using Elapse by simp
next
  case (SpawnFire h ty z now)
  have "levelOk (w\<lparr>hostTimeouts := removeAll h (hostTimeouts w)\<rparr>)"
    using assms by (simp add: levelOk_def)
  then show ?thesis using SpawnFire assms spawnItem_total by simp
next
  case (FrameFire h now)
  have "levelOk (w\<lparr>hostFrames := removeAll h (hostFrames w)\<rparr>)"
    using assms by (simp add: levelOk_def)
  then show ?thesis using FrameFire assms gameLoop_total by simp
qed


subsection \<open>The level keeps step with the clock\<close>

lemma fireInterval_upd:
  "fireInterval h w =
     (levelUpCallback w)\<lparr>hostDue := (hostDue w)(h := hostDue w h + hostPeriod w h)\<rparr>"
  by (simp add: fireInterval_def)





lemma fireTimes_numeral:
  "fireTimes (numeral k) h w = fireTimes (pred_numeral k) h (fireInterval h w)"
  by (simp add: numeral_eq_Suc)



lemma cancelTimers_clock [simp]: "hostClock (cancelTimers w) = hostClock w"
  by (simp add: clear_defs host_defs split: option.splits)

lemma endGame_clock [simp]: "hostClock (endGame r w) = hostClock w"
  by (simp add: endGame_def Let_def emit_def)






















subsection \<open>The miss counter\<close>

lemma missOk_handleItemCatch:
  assumes "missOk w"
  shows "missOk (handleItemCatch it w)"
proof (cases "isFruit (itemTypes (item_type it))")
  case True
  then show ?thesis using assms by (simp add: catch_fruit missOk_def)
next
  case False
  then have "handleItemCatch it w = endGame reasonBomb w"
    by (simp add: handleItemCatch_def)
  then show ?thesis using assms by (simp add: missOk_def)
qed

lemma missOk_handleItemMiss: "missOk w \<Longrightarrow> missOk (handleItemMiss it w)"
  by (cases "isFruit (itemTypes (item_type it))")
     (simp_all add: miss_fruit miss_bomb missOk_def)

lemma missOk_updateItems:
  assumes "missOk w" "updateItems now w = Inr w'"
  shows "missOk w'"
proof (cases "levelConfig (min (level w) 5)")
  case None
  then show ?thesis using assms by (simp add: updateItems_def split: if_splits)
next
  case (Some config)
  have "missOk (fst (resolveEach config now (items w) [] w))"
    using missOk_handleItemCatch missOk_handleItemMiss assms(1) by (rule resolveEach_preserves)
  then have "missOk (evictEach ids (fst (resolveEach config now (items w) [] w)))" for ids
    by (simp add: evictEach_upd missOk_def)
  then show ?thesis using assms(2) by (auto simp add: updateItems_run [OF Some])
qed

lemma missOk_gameLoop:
  assumes "missOk w" "gameLoop now w = Inr w'"
  shows "missOk w'"
proof (cases "isGameActive w")
  case True
  then obtain w1 where w1: "updateItems now w = Inr w1"
    and w': "w' = (requestAnimationFrame w1)\<lparr>animationId := Some (newFrame w1)\<rparr>"
    using assms(2) by (auto simp add: gameLoop_def split: sum.splits)
  have "missOk w1" using assms(1) w1 by (rule missOk_updateItems)
  then show ?thesis unfolding w' by (simp add: missOk_def host_defs)
next
  case False
  then show ?thesis using assms by (simp add: gameLoop_def)
qed

lemma missOk_createItem:
  assumes "missOk w" "createItem ty z now w = Inr w'"
  shows "missOk w'"
  using assms
  by (auto simp add: createItem_def Let_def missOk_def emit_def split: if_splits option.splits)

lemma missOk_spawnItem:
  assumes "missOk w" "spawnItem ty z now w = Inr w'"
  shows "missOk w'"
proof (cases "isGameActive w")
  case True
  then obtain w1 where w1: "createItem ty z now w = Inr w1"
    and w': "w' = (setTimeout w1)\<lparr>itemSpawnTimer := Some (newTimer w1)\<rparr>"
    using assms(2) by (auto simp add: spawnItem_def split: sum.splits)
  have "missOk w1" using assms(1) w1 by (rule missOk_createItem)
  then show ?thesis unfolding w' by (simp add: missOk_def host_defs)
next
  case False
  then show ?thesis using assms by (simp add: spawnItem_def)
qed

lemma missOk_start:
  assumes "maxMisses w = 3" "start t0 ty z t1 t2 w = Inr w'"
  shows "missOk w'"
proof -
  let ?w2 = "startLevelUpTimer (notifyScoreChange
      (w\<lparr>isGameActive := True, score := 0, level := 1, missCount := 0, combo := 0,
         fruitsCaught := 0, basketPosition := Zone CENTER, items := [],
         itemIdCounter := 0, gameStartTime := t0\<rparr>))"
  have w2: "missOk ?w2"
    using assms(1) by (simp add: missOk_def startLevelUpTimer_def host_defs)
  obtain w3 where w3: "spawnItem ty z t1 ?w2 = Inr w3" and w4: "gameLoop t2 w3 = Inr w'"
    using assms(2) by (auto simp add: start_def startItemSpawning_def Let_def split: sum.splits)
  have "missOk w3" using w2 w3 by (rule missOk_spawnItem)
  then show ?thesis using w4 by (rule missOk_gameLoop)
qed

lemma missOk_onPoseDetected: "missOk w \<Longrightarrow> missOk (onPoseDetected pose w)"
  by (auto simp add: onPoseDetected_def emit_def missOk_def Let_def split: option.splits)

lemma missOk_levelUpCallback: "missOk w \<Longrightarrow> missOk (levelUpCallback w)"
  by (simp add: levelUpCallback_def missOk_def)

lemma missOk_stop: "missOk w \<Longrightarrow> missOk (stop w)"
  by (simp add: stop_def Let_def removeEach_upd missOk_def)

lemma missOk_step:
  assumes "missOk w" "step e w = Inr w'"
  shows "missOk w'"
proof (cases e)
  case (Start t0 ty z t1 t2)
  then show ?thesis using assms missOk_start [of w t0 ty z t1 t2 w'] by (simp add: missOk_def)
next
  case Stop
  then show ?thesis using assms missOk_stop by auto
next
  case (Pose pose)
  then show ?thesis using assms missOk_onPoseDetected by auto
next
  case (Elapse d)
  have "missOk (elapse d w)"
    using missOk_levelUpCallback
    by (rule elapse_preserves) (simp_all add: missOk_def assms(1) [unfolded missOk_def])
  then show ?thesis using Elapse assms(2) by auto
next
  case (SpawnFire h ty z now)
  have "missOk (w\<lparr>hostTimeouts := removeAll h (hostTimeouts w)\<rparr>)"
    using assms(1) by (simp add: missOk_def)
  then show ?thesis
    using SpawnFire assms missOk_spawnItem by (auto split: if_splits)
next
  case (FrameFire h now)
  have "missOk (w\<lparr>hostFrames := removeAll h (hostFrames w)\<rparr>)"
    using assms(1) by (simp add: missOk_def)
  then show ?thesis
    using FrameFire assms missOk_gameLoop by (auto split: if_splits)
qed

text \<open>
  What holds of the miss counter in every state a run reaches from a state with
  \<open>maxMisses\<close> 3, no misses and no active game, such as a freshly constructed engine:
  it is never negative, and an engine whose counter has reached \<open>maxMisses\<close> is not active.
\<close>

lemma run_keeps_missOk:
  assumes "missOk w" "run evs w = Inr w'"
  shows "missOk w'"
  using assms
proof (induction evs arbitrary: w)
  case Nil
  then show ?case by simp
next
  case (Cons e evs)
  then obtain w1 where w1: "step e w = Inr w1" and r: "run evs w1 = Inr w'"
    by (auto split: sum.splits)
  have "missOk w1" using Cons.prems(1) w1 by (rule missOk_step)
  then show ?case using r by (rule Cons.IH)
qed

lemma missOk_constructor: "missOk wired \<and> missOk constructor"
  by (simp add: missOk_def wired_def constructor_def setScoreChangeCallback_def
      setItemCreateCallback_def setItemRemoveCallback_def setBasketMoveCallback_def
      setGameEndCallback_def)

lemma miss_limit_ends_game:
  assumes "isFruit (itemTypes (item_type it))" "maxMisses w \<le> missCount w + 1"
  shows "\<not> isGameActive (handleItemMiss it w) \<and> missCount (handleItemMiss it w) = missCount w + 1"
  using assms by (simp add: miss_fruit)

text \<open>
  Claim C1, at a frame in which four fruits land outside the basket. The spawn timer has
  fired three times since \<open>start\<close> and no frame has run in between; the frame at 8500 ms
  resolves all four items. The third miss ends the game, the loop goes on to the fourth
  item, and \<open>missCount\<close> ends at 4 with \<open>maxMisses\<close> 3.
\<close>

theorem misses_pass_the_limit:
  "map_sum id missCount
     (run [Start 0 apple LEFT 0 0, SpawnFire 2 apple LEFT 1500, SpawnFire 3 apple LEFT 3000,
           SpawnFire 4 apple LEFT 4500, FrameFire 1 8500] wired) = Inr 4
   \<and> map_sum id maxMisses
     (run [Start 0 apple LEFT 0 0, SpawnFire 2 apple LEFT 1500, SpawnFire 3 apple LEFT 3000,
           SpawnFire 4 apple LEFT 4500, FrameFire 1 8500] wired) = Inr 3
   \<and> map_sum id emitted
     (run [Start 0 apple LEFT 0 0, SpawnFire 2 apple LEFT 1500, SpawnFire 3 apple LEFT 3000,
           SpawnFire 4 apple LEFT 4500, FrameFire 1 8500] wired) =
     Inr [ScoreChange 0 1 0 3 0,
          ItemCreate \<lparr>item_id = 0, item_type = apple, item_zone = LEFT, item_y = 0,
                       item_createdAt = 0\<rparr> 4000,
          ItemCreate \<lparr>item_id = 1, item_type = apple, item_zone = LEFT, item_y = 0,
                       item_createdAt = 1500\<rparr> 4000,
          ItemCreate \<lparr>item_id = 2, item_type = apple, item_zone = LEFT, item_y = 0,
                       item_createdAt = 3000\<rparr> 4000,
          ItemCreate \<lparr>item_id = 3, item_type = apple, item_zone = LEFT, item_y = 0,
                       item_createdAt = 4500\<rparr> 4000,
          ScoreChange 0 1 1 3 0, ScoreChange 0 1 2 3 0, ScoreChange 0 1 3 3 0,
          GameEnd reasonMisses 0 1 0,
          ScoreChange 0 1 4 3 0,
          GameEnd reasonMisses 0 1 0,
          ItemRemove 0, ItemRemove 1, ItemRemove 2, ItemRemove 3]"
  by (simp add: engine_defs clear_defs host_defs Let_def)

subsection \<open>Created and removed item ids\<close>

lemma ledgerOk_kept: "kept w' = kept w \<Longrightarrow> ledgerOk w \<Longrightarrow> ledgerOk w'"
  by (simp add: ledgerOk_def kept_def itemIds_def levelOk_def)

lemma ledgerOk_cong:
  assumes "onItemCreate w' = onItemCreate w" "onItemRemove w' = onItemRemove w"
    "levelOk w' = levelOk w" "itemIdCounter w' = itemIdCounter w"
    "createdIds (emitted w') = createdIds (emitted w)"
    "removedIds (emitted w') @ itemIds w' = removedIds (emitted w) @ itemIds w"
  shows "ledgerOk w' = ledgerOk w"
proof -
  have "set (removedIds (emitted w')) \<union> set (itemIds w')
        = set (removedIds (emitted w)) \<union> set (itemIds w)"
    using assms(6) by (metis set_append)
  then show ?thesis
    unfolding ledgerOk_def assms(1-5) using assms(6) by simp
qed

lemma ledger_after_eviction:
  fixes R I ids :: "nat list"
  assumes "distinct (R @ I)" "set R \<union> set I = S" "set ids \<subseteq> set I" "distinct ids"
  shows "distinct ((R @ ids) @ filter (\<lambda>j. j \<notin> set ids) I)
       \<and> set (R @ ids) \<union> set (filter (\<lambda>j. j \<notin> set ids) I) = S"
  using assms by auto

lemma ledgerOk_updateItems:
  assumes "ledgerOk w" "updateItems now w = Inr w'"
  shows "ledgerOk w'"
proof -
  have lv: "levelOk w" using assms(1) by (simp add: ledgerOk_def)
  obtain config where c: "levelConfig (min (level w) 5) = Some config"
    using levelConfig_defined [OF lv] by blast
  define ids where "ids = map item_id (filter (\<lambda>it. fallDuration config \<le> now - item_createdAt it) (items w))"
  define w1 where "w1 = fst (resolveEach config now (items w) [] w)"
  have w': "w' = evictEach ids w1"
    using assms(2) by (simp add: updateItems_run [OF c] ids_def w1_def)
  have k: "kept w1 = kept w" unfolding w1_def by (rule kept_resolveEach)
  have f: "level w1 = level w" "items w1 = items w" "itemIdCounter w1 = itemIdCounter w"
    "onItemCreate w1 = onItemCreate w" "onItemRemove w1 = onItemRemove w"
    "createdIds (emitted w1) = createdIds (emitted w)"
    "removedIds (emitted w1) = removedIds (emitted w)"
    using k by (simp_all add: kept_def)
  have d: "distinct (map item_id (items w))"
    using assms(1) by (simp add: ledgerOk_def itemIds_def)
  have sub: "set ids \<subseteq> set (itemIds w)" unfolding ids_def itemIds_def by auto
  have dids: "distinct ids" unfolding ids_def using d by (rule distinct_map_filter)
  have ids': "itemIds w' = filter (\<lambda>j. j \<notin> set ids) (itemIds w)"
    unfolding w' itemIds_def using d by (simp add: evictEach_upd f spliceAll_ids)
  have rem': "removedIds (emitted w') = removedIds (emitted w) @ ids"
    unfolding w' using assms(1)
    by (simp add: evictEach_upd f removedIds_append removedIds_ItemRemove ledgerOk_def)
  have cre': "createdIds (emitted w') = createdIds (emitted w)"
    unfolding w' by (simp add: evictEach_upd f createdIds_append createdIds_ItemRemove)
  have rest: "onItemCreate w' = onItemCreate w" "onItemRemove w' = onItemRemove w"
    "level w' = level w" "itemIdCounter w' = itemIdCounter w"
    unfolding w' by (simp_all add: evictEach_upd f)
  have "distinct (removedIds (emitted w) @ itemIds w)"
    "set (removedIds (emitted w)) \<union> set (itemIds w) = {0..<itemIdCounter w}"
    using assms(1) by (simp_all add: ledgerOk_def)
  then have "distinct ((removedIds (emitted w) @ ids) @ filter (\<lambda>j. j \<notin> set ids) (itemIds w))
       \<and> set (removedIds (emitted w) @ ids) \<union> set (filter (\<lambda>j. j \<notin> set ids) (itemIds w))
         = {0..<itemIdCounter w}"
    using sub dids by (rule ledger_after_eviction)
  then show ?thesis
    using assms(1) unfolding ledgerOk_def ids' rem' cre' rest levelOk_def by simp
qed

lemma ledgerOk_createItem:
  assumes "ledgerOk w" "createItem ty z now w = Inr w'"
  shows "ledgerOk w'"
proof -
  have lv: "levelOk w" using assms(1) by (simp add: ledgerOk_def)
  obtain config where c: "levelConfig (min (level w) 5) = Some config"
    using levelConfig_defined [OF lv] by blast
  have on: "onItemCreate w" using assms(1) by (simp add: ledgerOk_def)
  let ?it = "\<lparr>item_id = itemIdCounter w, item_type = ty, item_zone = z, item_y = 0,
              item_createdAt = now\<rparr>"
  have w': "w' = w\<lparr>itemIdCounter := Suc (itemIdCounter w), items := items w @ [?it],
                    emitted := emitted w @ [ItemCreate ?it (fallDuration config)]\<rparr>"
    using assms(2) on c by (simp add: createItem_def Let_def emit_def)
  have fresh: "itemIdCounter w \<notin> set (removedIds (emitted w)) \<union> set (itemIds w)"
    using assms(1) by (simp add: ledgerOk_def)
  show ?thesis
    using assms(1) fresh unfolding w' ledgerOk_def itemIds_def levelOk_def
    by (auto simp add: createdIds_append removedIds_append)
qed

lemma ledgerOk_spawnItem:
  assumes "ledgerOk w" "spawnItem ty z now w = Inr w'"
  shows "ledgerOk w'"
proof (cases "isGameActive w")
  case True
  then obtain w1 where w1: "createItem ty z now w = Inr w1"
    and w': "w' = (setTimeout w1)\<lparr>itemSpawnTimer := Some (newTimer w1)\<rparr>"
    using assms(2) by (auto simp add: spawnItem_def split: sum.splits)
  have "ledgerOk w1" using assms(1) w1 by (rule ledgerOk_createItem)
  moreover have "kept w' = kept w1" unfolding w' by (simp add: kept_def host_defs)
  ultimately show ?thesis by (rule ledgerOk_kept [rotated])
next
  case False
  then show ?thesis using assms by (simp add: spawnItem_def)
qed

lemma ledgerOk_gameLoop:
  assumes "ledgerOk w" "gameLoop now w = Inr w'"
  shows "ledgerOk w'"
proof (cases "isGameActive w")
  case True
  then obtain w1 where w1: "updateItems now w = Inr w1"
    and w': "w' = (requestAnimationFrame w1)\<lparr>animationId := Some (newFrame w1)\<rparr>"
    using assms(2) by (auto simp add: gameLoop_def split: sum.splits)
  have "ledgerOk w1" using assms(1) w1 by (rule ledgerOk_updateItems)
  moreover have "kept w' = kept w1" unfolding w' by (simp add: kept_def host_defs)
  ultimately show ?thesis by (rule ledgerOk_kept [rotated])
next
  case False
  then show ?thesis using assms by (simp add: gameLoop_def)
qed

lemma ledgerOk_stop:
  assumes "ledgerOk w"
  shows "ledgerOk (stop w)"
proof -
  have on: "onItemRemove w" using assms by (simp add: ledgerOk_def)
  have "ledgerOk (stop w) = ledgerOk w"
  proof (rule ledgerOk_cong)
    show "removedIds (emitted (stop w)) @ itemIds (stop w) = removedIds (emitted w) @ itemIds w"
      using on by (simp add: stop_def Let_def removeEach_upd itemIds_def removedIds_append
          removedIds_map)
    show "createdIds (emitted (stop w)) = createdIds (emitted w)"
      by (simp add: stop_def Let_def removeEach_upd createdIds_append createdIds_map)
  qed (simp_all add: stop_def Let_def removeEach_upd levelOk_def)
  then show ?thesis using assms by simp
qed

lemma kept_onPoseDetected: "kept (onPoseDetected pose w) = kept w"
  by (simp add: onPoseDetected_def emit_def kept_def Let_def createdIds_append removedIds_append
      split: option.splits)

lemma ledgerOk_levelUpCallback:
  assumes "ledgerOk w"
  shows "ledgerOk (levelUpCallback w)"
proof (cases "level w < 5")
  case True
  have lv: "levelOk w" using assms by (simp add: ledgerOk_def)
  have "ledgerOk (w\<lparr>level := level w + 1\<rparr>) = ledgerOk w"
    using True lv by (intro ledgerOk_cong) (simp_all add: levelOk_def itemIds_def)
  then have "ledgerOk (w\<lparr>level := level w + 1\<rparr>)" using assms by simp
  then have "ledgerOk (notifyScoreChange (w\<lparr>level := level w + 1\<rparr>))"
    by (rule ledgerOk_kept [rotated]) simp
  then show ?thesis using True by (simp add: levelUpCallback_def)
next
  case False
  then show ?thesis using assms by (simp add: levelUpCallback_def)
qed

lemma ledgerOk_step:
  assumes "ledgerOk w" "\<not> isStart e" "step e w = Inr w'"
  shows "ledgerOk w'"
proof (cases e)
  case (Start t0 ty z t1 t2)
  then show ?thesis using assms(2) by simp
next
  case Stop
  then show ?thesis using assms ledgerOk_stop by auto
next
  case (Pose pose)
  have "ledgerOk (onPoseDetected pose w)"
    using kept_onPoseDetected assms(1) by (rule ledgerOk_kept)
  then show ?thesis using Pose assms(3) by auto
next
  case (Elapse d)
  have "ledgerOk (elapse d w)"
  proof (rule elapse_preserves [where P = ledgerOk])
    show "ledgerOk (v\<lparr>hostDue := f\<rparr>)" if "ledgerOk v" for v f
      using ledgerOk_kept [of "v\<lparr>hostDue := f\<rparr>" v] that by (simp add: kept_def)
    show "ledgerOk (v\<lparr>hostClock := c\<rparr>)" if "ledgerOk v" for v c
      using ledgerOk_kept [of "v\<lparr>hostClock := c\<rparr>" v] that by (simp add: kept_def)
  qed (simp_all add: ledgerOk_levelUpCallback assms(1))
  then show ?thesis using Elapse assms(3) by auto
next
  case (SpawnFire h ty z now)
  have "kept (w\<lparr>hostTimeouts := removeAll h (hostTimeouts w)\<rparr>) = kept w"
    by (simp add: kept_def)
  then have "ledgerOk (w\<lparr>hostTimeouts := removeAll h (hostTimeouts w)\<rparr>)"
    using assms(1) by (rule ledgerOk_kept)
  then show ?thesis
    using SpawnFire assms ledgerOk_spawnItem by (auto split: if_splits)
next
  case (FrameFire h now)
  have "kept (w\<lparr>hostFrames := removeAll h (hostFrames w)\<rparr>) = kept w"
    by (simp add: kept_def)
  then have "ledgerOk (w\<lparr>hostFrames := removeAll h (hostFrames w)\<rparr>)"
    using assms(1) by (rule ledgerOk_kept)
  then show ?thesis
    using FrameFire assms ledgerOk_gameLoop by (auto split: if_splits)
qed

lemma ledgerOk_start:
  assumes "onItemCreate w" "onItemRemove w" "emitted w = []"
    and "start t0 ty z t1 t2 w = Inr w'"
  shows "ledgerOk w'"
proof -
  let ?w2 = "startLevelUpTimer (notifyScoreChange
      (w\<lparr>isGameActive := True, score := 0, level := 1, missCount := 0, combo := 0,
         fruitsCaught := 0, basketPosition := Zone CENTER, items := [],
         itemIdCounter := 0, gameStartTime := t0\<rparr>))"
  have w2: "ledgerOk ?w2"
    using assms(1-3)
    by (simp add: ledgerOk_def itemIds_def levelOk_def startLevelUpTimer_def host_defs
        notifyScoreChange_upd)
  obtain w3 where w3: "spawnItem ty z t1 ?w2 = Inr w3" and w4: "gameLoop t2 w3 = Inr w'"
    using assms(4) by (auto simp add: start_def startItemSpawning_def Let_def split: sum.splits)
  have "ledgerOk w3" using w2 w3 by (rule ledgerOk_spawnItem)
  then show ?thesis using w4 by (rule ledgerOk_gameLoop)
qed

lemma ledgerOk_run:
  assumes "ledgerOk w" "\<forall>e \<in> set evs. \<not> isStart e"
  shows "\<exists>w'. run evs w = Inr w' \<and> ledgerOk w'"
  using assms
proof (induction evs arbitrary: w)
  case Nil
  then show ?case by simp
next
  case (Cons e evs)
  have "levelOk w" using Cons.prems(1) by (simp add: ledgerOk_def)
  then obtain w1 where w1: "step e w = Inr w1"
    using step_total by blast
  have "ledgerOk w1" using Cons.prems w1 by (auto intro: ledgerOk_step)
  then obtain w' where "run evs w1 = Inr w'" "ledgerOk w'"
    using Cons.IH Cons.prems(2) by auto
  then show ?case using w1 by simp
qed

lemma ledgerOk_facts:
  assumes "ledgerOk w"
  shows "distinct (createdIds (emitted w))"
    and "distinct (removedIds (emitted w) @ itemIds w)"
    and "set (createdIds (emitted w)) = set (removedIds (emitted w)) \<union> set (itemIds w)"
  using assms by (simp_all add: ledgerOk_def)

text \<open>
  Claim C3, amended. In a session (a \<open>start\<close> from a state with the create and remove
  callbacks registered, followed by any events other than another \<open>start\<close>) no operation
  faults, the created ids are pairwise different, no id is removed twice, and every created
  id is either removed or still in the collection, never both. After \<open>stop\<close> the collection
  is empty, so every created id has exactly one item-removed notification. (The log is
  taken empty at \<open>start\<close>, so that it is the log of the session.)
\<close>

theorem session_ledger:
  assumes "onItemCreate w0" and "onItemRemove w0" and "emitted w0 = []"
    and "\<forall>e \<in> set evs. \<not> isStart e"
  shows "\<exists>w w'. run (Start t0 ty z t1 t2 # evs) w0 = Inr w
       \<and> distinct (createdIds (emitted w))
       \<and> distinct (removedIds (emitted w) @ itemIds w)
       \<and> set (createdIds (emitted w)) = set (removedIds (emitted w)) \<union> set (itemIds w)
       \<and> run (Start t0 ty z t1 t2 # evs @ [Stop]) w0 = Inr w'
       \<and> items w' = []
       \<and> distinct (removedIds (emitted w'))
       \<and> set (removedIds (emitted w')) = set (createdIds (emitted w'))"
proof -
  obtain w1 where w1: "start t0 ty z t1 t2 w0 = Inr w1"
    using start_total by blast
  have l1: "ledgerOk w1" using assms(1-3) w1 by (rule ledgerOk_start)
  obtain w where w: "run evs w1 = Inr w" "ledgerOk w"
    using ledgerOk_run [OF l1 assms(4)] by blast
  have "\<forall>e \<in> set (evs @ [Stop]). \<not> isStart e" using assms(4) by simp
  then obtain w' where w': "run (evs @ [Stop]) w1 = Inr w'" "ledgerOk w'"
    using ledgerOk_run [OF l1] by blast
  have split: "run (xs @ ys) v = (case run xs v of Inl x \<Rightarrow> Inl x | Inr v1 \<Rightarrow> run ys v1)"
    for xs ys v
    by (induction xs arbitrary: v) (simp_all split: sum.splits)
  have "w' = stop w" using w'(1) w(1) by (simp add: split)
  then have e: "items w' = []" by (simp add: stop_items)
  have "distinct (removedIds (emitted w'))"
    "set (removedIds (emitted w')) = set (createdIds (emitted w'))"
    using ledgerOk_facts [OF w'(2)] e by (simp_all add: itemIds_def)
  then show ?thesis
    using w1 w w' e ledgerOk_facts [OF w(2)] by simp
qed

theorem session_ledger_witness:
  "\<exists>w w'. run [Start 0 bomb CENTER 0 0, SpawnFire 2 apple LEFT 1500, FrameFire 1 4000] wired = Inr w
     \<and> distinct (removedIds (emitted w) @ itemIds w)
     \<and> set (createdIds (emitted w)) = set (removedIds (emitted w)) \<union> set (itemIds w)
     \<and> run [Start 0 bomb CENTER 0 0, SpawnFire 2 apple LEFT 1500, FrameFire 1 4000, Stop] wired = Inr w'
     \<and> set (removedIds (emitted w')) = set (createdIds (emitted w'))"
proof -
  have h: "onItemCreate wired" "onItemRemove wired" "emitted wired = []"
    by (simp_all add: wired_def constructor_def setScoreChangeCallback_def
      setItemCreateCallback_def setItemRemoveCallback_def setBasketMoveCallback_def
      setGameEndCallback_def)
  have n: "\<forall>e \<in> set [SpawnFire 2 apple LEFT 1500, FrameFire 1 4000]. \<not> isStart e"
    by simp
  have a: "[SpawnFire 2 apple LEFT 1500, FrameFire 1 4000] @ [Stop]
      = [SpawnFire 2 apple LEFT 1500, FrameFire 1 4000, Stop]"
    by simp
  show ?thesis
    using session_ledger [OF h n, of 0 bomb CENTER 0 0] unfolding a by blast
qed

text \<open>
  Claim C3 as stated fails when the game ends with an item in the air: the bomb of id 0
  is caught at 4000 ms, the apple of id 1 created at 1500 ms is still falling; the session
  has ended, id 1 was announced and has no item-removed notification.
\<close>

theorem airborne_item_left_at_game_end:
  "map_sum id isGameActive
     (run [Start 0 bomb CENTER 0 0, SpawnFire 2 apple LEFT 1500, FrameFire 1 4000] wired) = Inr False
   \<and> map_sum id emitted
     (run [Start 0 bomb CENTER 0 0, SpawnFire 2 apple LEFT 1500, FrameFire 1 4000] wired) =
     Inr [ScoreChange 0 1 0 3 0,
          ItemCreate \<lparr>item_id = 0, item_type = bomb, item_zone = CENTER, item_y = 0,
                       item_createdAt = 0\<rparr> 4000,
          ItemCreate \<lparr>item_id = 1, item_type = apple, item_zone = LEFT, item_y = 0,
                       item_createdAt = 1500\<rparr> 4000,
          GameEnd reasonBomb 0 1 0, ItemRemove 0]
   \<and> map_sum id itemIds
     (run [Start 0 bomb CENTER 0 0, SpawnFire 2 apple LEFT 1500, FrameFire 1 4000] wired) = Inr [1]"
  by (simp add: engine_defs clear_defs host_defs Let_def itemIds_def)

subsection \<open>Callbacks only observe\<close>

lemma core_fields [simp]:
  "score (core w) = score w"
  "level (core w) = level w"
  "missCount (core w) = missCount w"
  "maxMisses (core w) = maxMisses w"
  "combo (core w) = combo w"
  "isGameActive (core w) = isGameActive w"
  "fruitsCaught (core w) = fruitsCaught w"
  "basketPosition (core w) = basketPosition w"
  "items (core w) = items w"
  "itemIdCounter (core w) = itemIdCounter w"
  "hostIntervals (core w) = hostIntervals w"
  "hostTimeouts (core w) = hostTimeouts w"
  "hostFrames (core w) = hostFrames w"
  "hostClock (core w) = hostClock w"
  "hostPeriod (core w) = hostPeriod w"
  "hostDue (core w) = hostDue w"
  by (simp_all add: core_def)

lemma core_slots [simp]:
  "onScoreChange (core w) = False"
  "onItemCreate (core w) = False"
  "onItemRemove (core w) = False"
  "onBasketMove (core w) = False"
  "onGameEnd (core w) = False"
  "emitted (core w) = []"
  by (simp_all add: core_def)

lemma core_emit: "core (emit n w) = core w"
  by (simp add: core_def emit_def)

lemma core_cancelTimers: "core (cancelTimers w) = cancelTimers (core w)"
  by (simp add: core_def clear_defs host_defs split: option.splits)

lemma core_notifyScoreChange: "core (notifyScoreChange w) = notifyScoreChange (core w)"
  by (simp add: notifyScoreChange_def core_emit)

lemma core_endGame: "core (endGame r w) = endGame r (core w)"
proof -
  have "core (w\<lparr>isGameActive := False\<rparr>) = (core w)\<lparr>isGameActive := False\<rparr>"
    by (simp add: core_def)
  then have "core (cancelTimers (w\<lparr>isGameActive := False\<rparr>))
      = cancelTimers ((core w)\<lparr>isGameActive := False\<rparr>)"
    by (simp add: core_cancelTimers)
  then show ?thesis
    by (simp add: endGame_def Let_def core_emit)
qed

lemma core_handleItemCatch: "core (handleItemCatch it w) = handleItemCatch it (core w)"
proof (cases "isFruit (itemTypes (item_type it))")
  case True
  then show ?thesis by (simp add: catch_fruit) (simp add: core_def)
next
  case False
  then show ?thesis by (simp add: handleItemCatch_def core_endGame)
qed

lemma core_handleItemMiss: "core (handleItemMiss it w) = handleItemMiss it (core w)"
proof (cases "isFruit (itemTypes (item_type it))")
  case True
  have "core (w\<lparr>missCount := missCount w + 1, combo := 0\<rparr>)
        = (core w)\<lparr>missCount := missCount w + 1, combo := 0\<rparr>"
    by (simp add: core_def)
  then show ?thesis
    using True by (simp add: miss_fruit core_endGame core_notifyScoreChange)
next
  case False
  then show ?thesis by (simp add: miss_bomb)
qed

lemma core_resolveEach:
  "resolveEach config now its acc (core w) =
     (core (fst (resolveEach config now its acc w)), snd (resolveEach config now its acc w))"
proof (induction its arbitrary: acc w)
  case Nil
  then show ?case by simp
next
  case (Cons it its)
  show ?case
    by (simp add: Cons.IH [symmetric] checkCollision_def core_handleItemCatch core_handleItemMiss)
qed

lemma core_evictEach: "core (evictEach ids w) = evictEach ids (core w)"
  by (simp add: evictEach_upd) (simp add: core_def)

lemma core_updateItems: "map_sum id core (updateItems now w) = updateItems now (core w)"
proof (cases "levelConfig (min (level w) 5)")
  case None
  then show ?thesis by (simp add: updateItems_def)
next
  case (Some config)
  then show ?thesis
    by (simp add: updateItems_def core_resolveEach core_evictEach split: prod.splits)
qed

lemma core_frame_request:
  "core ((requestAnimationFrame w)\<lparr>animationId := Some (newFrame w)\<rparr>)
     = (requestAnimationFrame (core w))\<lparr>animationId := Some (newFrame (core w))\<rparr>"
  by (simp add: core_def host_defs)

lemma core_timeout_request:
  "core ((setTimeout w)\<lparr>itemSpawnTimer := Some (newTimer w)\<rparr>)
     = (setTimeout (core w))\<lparr>itemSpawnTimer := Some (newTimer (core w))\<rparr>"
  by (simp add: core_def host_defs)

lemma core_startLevelUpTimer: "core (startLevelUpTimer w) = startLevelUpTimer (core w)"
  by (simp add: startLevelUpTimer_def core_def host_defs)

lemma core_gameLoop: "map_sum id core (gameLoop now w) = gameLoop now (core w)"
proof (cases "updateItems now w")
  case (Inl x)
  then have "updateItems now (core w) = Inl x"
    using core_updateItems [of now w] by simp
  then show ?thesis
    using Inl by (simp add: gameLoop_def)
next
  case (Inr w1)
  then have "updateItems now (core w) = Inr (core w1)"
    using core_updateItems [of now w] by simp
  then show ?thesis
    using Inr by (simp add: gameLoop_def core_frame_request)
qed

lemma core_createItem:
  assumes "levelOk w"
  shows "map_sum id core (createItem ty z now w) = createItem ty z now (core w)"
proof -
  obtain config where c: "levelConfig (min (level w) 5) = Some config"
    using levelConfig_defined [OF assms] by blast
  show ?thesis
    by (simp add: createItem_def Let_def c core_emit) (simp add: core_def)
qed

lemma core_spawnItem:
  assumes "levelOk w"
  shows "map_sum id core (spawnItem ty z now w) = spawnItem ty z now (core w)"
proof (cases "createItem ty z now w")
  case (Inl x)
  then show ?thesis using createItem_total [OF assms, of ty z now] by simp
next
  case (Inr w1)
  then have "createItem ty z now (core w) = Inr (core w1)"
    using core_createItem [OF assms, of ty z now] by simp
  then show ?thesis
    using Inr by (simp add: spawnItem_def core_timeout_request)
qed

lemma core_start:
  "map_sum id core (start t0 ty z t1 t2 w) = start t0 ty z t1 t2 (core w)"
proof -
  let ?r = "\<lambda>v. v\<lparr>isGameActive := True, score := 0, level := 1, missCount := 0, combo := 0,
         fruitsCaught := 0, basketPosition := Zone CENTER, items := [],
         itemIdCounter := 0, gameStartTime := t0\<rparr>"
  let ?w2 = "startLevelUpTimer (notifyScoreChange (?r w))"
  have r: "core (?r w) = ?r (core w)" by (simp add: core_def)
  have w2: "core ?w2 = startLevelUpTimer (notifyScoreChange (?r (core w)))"
    by (simp add: core_startLevelUpTimer core_notifyScoreChange r)
  have l2: "levelOk ?w2" by (simp add: levelOk_def startLevelUpTimer_def host_defs)
  obtain w3 where w3: "spawnItem ty z t1 ?w2 = Inr w3"
    using spawnItem_total [OF l2] by blast
  then have c3: "spawnItem ty z t1 (core ?w2) = Inr (core w3)"
    using core_spawnItem [OF l2, of ty z t1] by simp
  show ?thesis
    using w3 c3 core_gameLoop [of t2 w3]
    by (simp add: start_def startItemSpawning_def Let_def w2 [symmetric])
qed

lemma core_stop: "core (stop w) = stop (core w)"
proof -
  have "core (w\<lparr>isGameActive := False\<rparr>) = (core w)\<lparr>isGameActive := False\<rparr>"
    by (simp add: core_def)
  then have c: "core (cancelTimers (w\<lparr>isGameActive := False\<rparr>))
      = cancelTimers ((core w)\<lparr>isGameActive := False\<rparr>)"
    by (simp add: core_cancelTimers)
  have "core (v\<lparr>emitted := e, items := []\<rparr>) = (core v)\<lparr>items := []\<rparr>" for v e
    by (simp add: core_def)
  then show ?thesis
    by (simp add: stop_def Let_def removeEach_upd c [symmetric])
qed

lemma core_onPoseDetected: "core (onPoseDetected pose w) = onPoseDetected pose (core w)"
proof -
  have "core (w\<lparr>basketPosition := p\<rparr>) = (core w)\<lparr>basketPosition := p\<rparr>" for p
    by (simp add: core_def)
  then show ?thesis
    by (simp add: onPoseDetected_def Let_def core_emit split: option.splits)
qed

lemma core_levelUpCallback: "core (levelUpCallback w) = levelUpCallback (core w)"
proof -
  have "core (w\<lparr>level := level w + 1\<rparr>) = (core w)\<lparr>level := level w + 1\<rparr>"
    by (simp add: core_def)
  then show ?thesis
    by (simp add: levelUpCallback_def core_notifyScoreChange)
qed

lemma core_fireTimes: "core (fireTimes n h w) = fireTimes n h (core w)"
proof (induction n arbitrary: w)
  case 0
  then show ?case by simp
next
  case (Suc n)
  have "core ((levelUpCallback w)\<lparr>hostDue := f\<rparr>) = (levelUpCallback (core w))\<lparr>hostDue := f\<rparr>" for f
    by (simp add: core_levelUpCallback [symmetric]) (simp add: core_def)
  then have "core (fireInterval h w) = fireInterval h (core w)"
    by (simp add: fireInterval_def)
  then show ?case using Suc.IH [of "fireInterval h w"] by simp
qed

lemma core_fireAll: "core (fireAll hs d w) = fireAll hs d (core w)"
proof (induction hs arbitrary: w)
  case Nil
  then show ?case by simp
next
  case (Cons h hs)
  have "dueCount h d (core w) = dueCount h d w" by (simp add: dueCount_def)
  then show ?case
    using Cons.IH [of "fireTimes (dueCount h d w) h w"] by (simp add: core_fireTimes)
qed

lemma core_elapse: "core (elapse d w) = elapse d (core w)"
proof -
  have "core (v\<lparr>hostClock := c\<rparr>) = (core v)\<lparr>hostClock := c\<rparr>" for v c
    by (simp add: core_def)
  then show ?thesis by (simp add: elapse_def core_fireAll)
qed

lemma core_step:
  assumes "levelOk w"
  shows "map_sum id core (step e w) = step e (core w)"
proof (cases e)
  case (Start t0 ty z t1 t2)
  then show ?thesis by (simp add: core_start)
next
  case Stop
  then show ?thesis by (simp add: core_stop)
next
  case (Pose pose)
  then show ?thesis by (simp add: core_onPoseDetected)
next
  case (Elapse d)
  then show ?thesis by (simp add: core_elapse)
next
  case (SpawnFire h ty z now)
  let ?v = "w\<lparr>hostTimeouts := removeAll h (hostTimeouts w)\<rparr>"
  have l: "levelOk ?v" using assms by (simp add: levelOk_def)
  have "core ?v = (core w)\<lparr>hostTimeouts := removeAll h (hostTimeouts w)\<rparr>"
    by (simp add: core_def)
  then show ?thesis
    using SpawnFire core_spawnItem [OF l, of ty z now] by simp
next
  case (FrameFire h now)
  let ?v = "w\<lparr>hostFrames := removeAll h (hostFrames w)\<rparr>"
  have "core ?v = (core w)\<lparr>hostFrames := removeAll h (hostFrames w)\<rparr>"
    by (simp add: core_def)
  then show ?thesis
    using FrameFire core_gameLoop [of now ?v] by simp
qed

lemma core_run:
  assumes "levelOk w"
  shows "\<exists>w'. run evs w = Inr w' \<and> run evs (core w) = Inr (core w')"
  using assms
proof (induction evs arbitrary: w)
  case Nil
  then show ?case by simp
next
  case (Cons e evs)
  obtain w1 where w1: "step e w = Inr w1" "levelOk w1"
    using step_total [OF Cons.prems] by blast
  then have "step e (core w) = Inr (core w1)"
    using core_step [OF Cons.prems, of e] by simp
  then show ?case using Cons.IH [OF w1(2)] w1(1) by simp
qed

lemma core_registerAll: "core (registerAll w) = core w"
  by (simp add: core_def registerAll_def)

lemma levelOk_registerAll: "levelOk (registerAll w) = levelOk w"
  by (simp add: levelOk_def registerAll_def)

text \<open>
  Claim C10. Every emission sits under a test of its slot, so the slots only decide what
  is notified: from any state whose level is between 1 and 5 (every state an engine
  reaches), whichever slots are registered, every sequence of operations runs to the end
  without a fault, and it leaves the same state as the same sequence run with all five
  callbacks registered, in every field but the slots themselves and the log of the
  notifications made.
\<close>

theorem callbacks_only_observe:
  assumes "levelOk w"
  shows "\<exists>w1 w2. run evs w = Inr w1 \<and> run evs (registerAll w) = Inr w2 \<and> core w1 = core w2"
proof -
  obtain w1 where w1: "run evs w = Inr w1" "run evs (core w) = Inr (core w1)"
    using core_run [OF assms] by blast
  have "levelOk (registerAll w)" using assms by (simp add: levelOk_registerAll)
  then obtain w2 where w2: "run evs (registerAll w) = Inr w2"
    "run evs (core (registerAll w)) = Inr (core w2)"
    using core_run by blast
  have "core w1 = core w2" using w1(2) w2(2) by (simp add: core_registerAll)
  then show ?thesis using w1(1) w2(1) by simp
qed

theorem callbacks_only_observe_witness:
  "\<exists>w1 w2. run [Start 0 apple LEFT 0 0, FrameFire 1 5000, Stop] constructor = Inr w1
     \<and> run [Start 0 apple LEFT 0 0, FrameFire 1 5000, Stop] (registerAll constructor) = Inr w2
     \<and> core w1 = core w2"
proof -
  have "levelOk constructor" by (simp add: levelOk_def constructor_def)
  then show ?thesis by (rule callbacks_only_observe)
qed

end
